theory Spec2Isabelle
  imports Main "HOL-Library.Code_Target_Nat"
begin

section \<open>Data model\<close>

text \<open>
  The download pipeline (\<^verbatim>\<open>ecmwf_pipeline/download_pipeline/pipeline.py\<close>) works on a
  configuration dictionary with a \<^verbatim>\<open>selection\<close> and a \<^verbatim>\<open>parameters\<close> section.
  Python dictionaries keep insertion order, and the order of the parameter subsections
  decides the round-robin assignment, so a dictionary is an association list whose
  first binding of a key is the one that counts.

  The values of \<^verbatim>\<open>parameters\<close> are dynamically typed; the code distinguishes
  dictionaries (\<^verbatim>\<open>isinstance(params, dict)\<close>), tests truthiness and iterates, so they
  are a datatype. The values of \<^verbatim>\<open>selection\<close> are sequences of strings.
\<close>

type_synonym 'v dict = "(string \<times> 'v) list"

datatype pyval =
    Str string
  | Bool bool
  | Lst "string list"
  | Dict "(string \<times> pyval) list"

type_synonym params = "pyval dict"
type_synonym selection = "string list dict"

text \<open>
  \<^verbatim>\<open>config.get('selection', {})\<close> allows the \<^verbatim>\<open>selection\<close> section to be missing,
  so it is optional; \<^verbatim>\<open>config['parameters']\<close> is read everywhere.
\<close>

record config =
  selection :: "selection option"
  parameters :: params

text \<open>
  Exceptions are values. \<^verbatim>\<open>KeyError\<close> carries the missing key. The last four are the
  names of the specification's error taxonomy; \<^verbatim>\<open>Unmodelled\<close> marks a format string
  outside the fragment of \<^verbatim>\<open>str.format\<close> that is modelled below.
\<close>

datatype pyerr =
    KeyError string
  | IndexError
  | ValueError
  | TypeError
  | AttributeError
  | Unmodelled
  | ConfigurationError
  | ConcurrentDownloadError
  | FetchError string
  | StoreError string

subsection \<open>Dictionary operations\<close>

definition dict_keys :: "'v dict \<Rightarrow> string list" where
  "dict_keys d = map fst d"

text \<open>\<^verbatim>\<open>d[k]\<close>: raises \<^verbatim>\<open>KeyError\<close> on a missing key.\<close>

definition dict_getitem :: "'v dict \<Rightarrow> string \<Rightarrow> pyerr + 'v" where
  "dict_getitem d k = (case map_of d k of None \<Rightarrow> Inl (KeyError k) | Some v \<Rightarrow> Inr v)"

text \<open>\<^verbatim>\<open>d.get(k, default)\<close>.\<close>

definition dict_get :: "'v dict \<Rightarrow> string \<Rightarrow> 'v \<Rightarrow> 'v" where
  "dict_get d k dflt = (case map_of d k of None \<Rightarrow> dflt | Some v \<Rightarrow> v)"

text \<open>\<^verbatim>\<open>d[k] = v\<close>: an existing key keeps its place, a new key goes last.\<close>

fun dict_setitem :: "'v dict \<Rightarrow> string \<Rightarrow> 'v \<Rightarrow> 'v dict" where
  "dict_setitem [] k v = [(k, v)]"
| "dict_setitem ((k', v') # d) k v =
     (if k' = k then (k, v) # d else (k', v') # dict_setitem d k v)"

text \<open>\<^verbatim>\<open>d.update(e)\<close>: the bindings of \<^verbatim>\<open>e\<close> are stored in order.\<close>

fun dict_update :: "'v dict \<Rightarrow> 'v dict \<Rightarrow> 'v dict" where
  "dict_update d [] = d"
| "dict_update d ((k, v) # e) = dict_update (dict_setitem d k v) e"

subsection \<open>Dynamic values\<close>

text \<open>Truthiness, as \<^verbatim>\<open>if value:\<close> tests it.\<close>

fun truthy :: "pyval \<Rightarrow> bool" where
  "truthy (Str s) = (s \<noteq> [])"
| "truthy (Bool b) = b"
| "truthy (Lst l) = (l \<noteq> [])"
| "truthy (Dict d) = (d \<noteq> [])"

text \<open>
  \<^verbatim>\<open>for key in value\<close>: a list gives its elements, a string its characters, a
  dictionary its keys; a boolean is not iterable.
\<close>

fun py_iter :: "pyval \<Rightarrow> pyerr + string list" where
  "py_iter (Lst l) = Inr l"
| "py_iter (Str s) = Inr (map (\<lambda>c. [c]) s)"
| "py_iter (Dict d) = Inr (map fst d)"
| "py_iter (Bool b) = Inl TypeError"

section \<open>Positional string formatting\<close>

text \<open>
  \<^verbatim>\<open>target_template.format(*partition_key_values)\<close> is the library's \<^verbatim>\<open>str.format\<close>
  with positional string arguments and no keyword arguments. The model covers literal
  text, the escapes \<^verbatim>\<open>{{\<close> and \<^verbatim>\<open>}}\<close>, automatically numbered fields \<^verbatim>\<open>{}\<close>,
  manually numbered fields \<^verbatim>\<open>{3}\<close> and named fields \<^verbatim>\<open>{name}\<close> (a \<^verbatim>\<open>KeyError\<close>,
  there being no keyword arguments). The format string is processed left to right and
  the first error is the one raised. A field with a conversion, a format specification,
  an attribute or index lookup, or a nested brace is outside the fragment.
\<close>

datatype an_state = ANS_INIT | ANS_AUTO nat | ANS_MANUAL

definition digit_val :: "char \<Rightarrow> nat option" where
  "digit_val c =
     (if c = CHR ''0'' then Some 0 else if c = CHR ''1'' then Some 1
      else if c = CHR ''2'' then Some 2 else if c = CHR ''3'' then Some 3
      else if c = CHR ''4'' then Some 4 else if c = CHR ''5'' then Some 5
      else if c = CHR ''6'' then Some 6 else if c = CHR ''7'' then Some 7
      else if c = CHR ''8'' then Some 8 else if c = CHR ''9'' then Some 9
      else None)"

text \<open>The decimal value of a string of digits; \<open>None\<close> when a character is no digit.\<close>

fun get_integer :: "nat \<Rightarrow> string \<Rightarrow> nat option" where
  "get_integer acc [] = Some acc"
| "get_integer acc (c # cs) =
     (case digit_val c of None \<Rightarrow> None | Some d \<Rightarrow> get_integer (acc * 10 + d) cs)"

text \<open>The largest index the field parser accepts (\<^verbatim>\<open>PY_SSIZE_T_MAX\<close>, 64 bit).\<close>

definition PY_SSIZE_T_MAX :: nat where
  "PY_SSIZE_T_MAX = 2 ^ 63 - 1"

text \<open>The text of a replacement field up to its closing brace, and what follows it.\<close>

fun split_field :: "string \<Rightarrow> (string \<times> string) option" where
  "split_field [] = None"
| "split_field (c # cs) =
     (if c = CHR ''}'' then Some ([], cs)
      else (case split_field cs of None \<Rightarrow> None | Some (f, r) \<Rightarrow> Some (c # f, r)))"

definition outside_fragment :: "string \<Rightarrow> bool" where
  "outside_fragment name = (\<exists>c \<in> set name. c \<in> set ''{!:.['')"

definition emit :: "string \<Rightarrow> pyerr + string \<Rightarrow> pyerr + string" where
  "emit s r = (case r of Inl e \<Rightarrow> Inl e | Inr t \<Rightarrow> Inr (s @ t))"

lemma split_field_shorter:
  "split_field cs = Some (f, r) \<Longrightarrow> length r < length cs"
  by (induction cs arbitrary: f r) (auto split: if_splits option.splits)

function vformat :: "an_state \<Rightarrow> string list \<Rightarrow> string \<Rightarrow> pyerr + string" where
  "vformat st args [] = Inr []"
| "vformat st args (c # cs) =
     (if c = CHR ''{'' then
        (case cs of
           [] \<Rightarrow> Inl ValueError
         | d # ds \<Rightarrow>
             if d = CHR ''{'' then emit [c] (vformat st args ds)
             else
               (case split_field cs of
                  None \<Rightarrow> Inl ValueError
                | Some (name, rest) \<Rightarrow>
                    if outside_fragment name then Inl Unmodelled
                    else if name = [] then
                      (case st of
                         ANS_MANUAL \<Rightarrow> Inl ValueError
                       | ANS_INIT \<Rightarrow>
                           if 0 < length args
                           then emit (args ! 0) (vformat (ANS_AUTO 1) args rest)
                           else Inl IndexError
                       | ANS_AUTO n \<Rightarrow>
                           if n < length args
                           then emit (args ! n) (vformat (ANS_AUTO (Suc n)) args rest)
                           else Inl IndexError)
                    else
                      (case get_integer 0 name of
                         None \<Rightarrow> Inl (KeyError name)
                       | Some i \<Rightarrow>
                           if PY_SSIZE_T_MAX < i then Inl ValueError
                           else
                             (case st of
                                ANS_AUTO n \<Rightarrow> Inl ValueError
                              | _ \<Rightarrow>
                                  if i < length args
                                  then emit (args ! i) (vformat ANS_MANUAL args rest)
                                  else Inl IndexError))))
      else if c = CHR ''}'' then
        (case cs of
           [] \<Rightarrow> Inl ValueError
         | d # ds \<Rightarrow> if d = CHR ''}'' then emit [c] (vformat st args ds) else Inl ValueError)
      else emit [c] (vformat st args cs))"
  by pat_completeness auto
termination
  by (relation "measure (\<lambda>(st, args, s). length s)")
    (auto simp del: split_field.simps dest!: split_field_shorter)

definition py_format :: "string \<Rightarrow> string list \<Rightarrow> pyerr + string" where
  "py_format template args = vformat ANS_INIT args template"

text \<open>The number of the next automatically numbered field.\<close>

fun an_field_number :: "an_state \<Rightarrow> nat" where
  "an_field_number ANS_INIT = 0"
| "an_field_number (ANS_AUTO n) = n"
| "an_field_number ANS_MANUAL = 0"

text \<open>
  Templates written from pieces: literal text (its braces doubled), an automatically
  numbered field \<^verbatim>\<open>{}\<close>, a manually numbered field \<^verbatim>\<open>{n}\<close> with the index in
  decimal, and a named field \<^verbatim>\<open>{name}\<close>.
\<close>

datatype piece = Literal string | Field | Index nat | Name string

definition escape :: "string \<Rightarrow> string" where
  "escape s =
     concat (map (\<lambda>c. if c = CHR ''{'' then ''{{'' else if c = CHR ''}'' then ''}}'' else [c]) s)"

definition digit_char :: "nat \<Rightarrow> char" where
  "digit_char d = ''0123456789'' ! d"

text \<open>The decimal numeral of a number, as \<^verbatim>\<open>str(n)\<close> writes it.\<close>

function decimal :: "nat \<Rightarrow> string" where
  "decimal n = (if n < 10 then [digit_char n] else decimal (n div 10) @ [digit_char (n mod 10)])"
  by pat_completeness auto
termination
  by (relation "measure id") auto

declare decimal.simps [simp del]

fun template_of :: "piece list \<Rightarrow> string" where
  "template_of [] = []"
| "template_of (Literal s # ps) = escape s @ template_of ps"
| "template_of (Field # ps) = ''{}'' @ template_of ps"
| "template_of (Index i # ps) = ''{'' @ decimal i @ ''}'' @ template_of ps"
| "template_of (Name s # ps) = ''{'' @ s @ ''}'' @ template_of ps"

text \<open>
  The number of automatically numbered fields of a template, the indices of its
  manually numbered fields, and the names of its named fields.
\<close>

fun field_count :: "piece list \<Rightarrow> nat" where
  "field_count [] = 0"
| "field_count (Field # ps) = Suc (field_count ps)"
| "field_count (p # ps) = field_count ps"

fun positions :: "piece list \<Rightarrow> nat list" where
  "positions [] = []"
| "positions (Index i # ps) = i # positions ps"
| "positions (p # ps) = positions ps"

fun names :: "piece list \<Rightarrow> string list" where
  "names [] = []"
| "names (Name s # ps) = s # names ps"
| "names (p # ps) = names ps"

text \<open>
  A name that stands for a named field: it is not empty, it is no number, and it has no
  closing brace and no character that starts a conversion, a format specification or a
  lookup.
\<close>

definition field_name :: "string \<Rightarrow> bool" where
  "field_name s \<longleftrightarrow>
     s \<noteq> [] \<and> get_integer 0 s = None \<and> \<not> outside_fragment s \<and> CHR ''}'' \<notin> set s"

text \<open>
  A template references more positions than the \<open>n\<close> values that are supplied when it
  has more than \<open>n\<close> automatically numbered fields, or a manually numbered field whose
  index is not below \<open>n\<close>.
\<close>

definition references_beyond :: "piece list \<Rightarrow> nat \<Rightarrow> bool" where
  "references_beyond ps n \<longleftrightarrow> n < field_count ps \<or> (\<exists>i \<in> set (positions ps). n \<le> i)"

text \<open>
  The string a template stands for: the automatically numbered fields take the values
  from position \<open>n\<close> on, in order, and a manually numbered field takes the value at
  its index. A named field has no value among the positional arguments.
\<close>

fun fill :: "nat \<Rightarrow> piece list \<Rightarrow> string list \<Rightarrow> string" where
  "fill n [] vs = []"
| "fill n (Literal s # ps) vs = s @ fill n ps vs"
| "fill n (Field # ps) vs = vs ! n @ fill (Suc n) ps vs"
| "fill n (Index i # ps) vs = vs ! i @ fill n ps vs"
| "fill n (Name s # ps) vs = fill n ps vs"

section \<open>The target namer and the skip check\<close>

text \<open>
  \<^verbatim>\<open>[config['selection'][key][0] for key in partition_keys]\<close>: the sections and keys are
  looked up key by key, so the first key that fails decides the exception, and an empty
  key list reads nothing.
\<close>

fun first_values :: "selection option \<Rightarrow> string list \<Rightarrow> pyerr + string list" where
  "first_values sel [] = Inr []"
| "first_values sel (key # keys) =
     (case sel of
        None \<Rightarrow> Inl (KeyError ''selection'')
      | Some s \<Rightarrow>
          (case dict_getitem s key of
             Inl e \<Rightarrow> Inl e
           | Inr [] \<Rightarrow> Inl IndexError
           | Inr (v # _) \<Rightarrow>
               (case first_values sel keys of
                  Inl e \<Rightarrow> Inl e
                | Inr vs \<Rightarrow> Inr (v # vs))))"

definition prepare_target_name :: "config \<Rightarrow> pyerr + string" where
  "prepare_target_name cfg =
     (case dict_getitem (parameters cfg) ''partition_keys'' of
        Inl e \<Rightarrow> Inl e
      | Inr pk \<Rightarrow>
          (case py_iter pk of
             Inl e \<Rightarrow> Inl e
           | Inr partition_keys \<Rightarrow>
               (case first_values (selection cfg) partition_keys of
                  Inl e \<Rightarrow> Inl e
                | Inr partition_key_values \<Rightarrow>
                    (case dict_getitem (parameters cfg) ''target_template'' of
                       Inl e \<Rightarrow> Inl e
                     | Inr (Str template) \<Rightarrow> py_format template partition_key_values
                     | Inr _ \<Rightarrow> Inl AttributeError))))"

text \<open>
  The blob store is an external collaborator; its state is the objects it holds, and
  \<^verbatim>\<open>store.exists(target)\<close> reads it.
\<close>

type_synonym store = "string \<Rightarrow> string option"

definition store_exists :: "store \<Rightarrow> string \<Rightarrow> bool" where
  "store_exists st target = (st target \<noteq> None)"

definition skip_partition :: "config \<Rightarrow> store \<Rightarrow> pyerr + bool" where
  "skip_partition cfg st =
     (if ''force_download'' \<notin> set (dict_keys (parameters cfg)) then Inr False
      else
        (case dict_getitem (parameters cfg) ''force_download'' of
           Inl e \<Rightarrow> Inl e
         | Inr fd \<Rightarrow>
             if truthy fd then Inr False
             else
               (case prepare_target_name cfg of
                  Inl e \<Rightarrow> Inl e
                | Inr target \<Rightarrow> if store_exists st target then Inr True else Inr False)))"

section \<open>The selection expander\<close>

text \<open>
  \<^verbatim>\<open>itertools.product(*lists)\<close>: the combinations in odometer order, the first list
  varying slowest; the product of no lists is the one empty combination.
\<close>

fun itertools_product :: "'a list list \<Rightarrow> 'a list list" where
  "itertools_product [] = [[]]"
| "itertools_product (xs # xss) =
     concat (map (\<lambda>x. map ((#) x) (itertools_product xss)) xs)"

text \<open>\<^verbatim>\<open>[selection[key] for key in partition_keys]\<close>.\<close>

fun lookup_all :: "selection \<Rightarrow> string list \<Rightarrow> pyerr + string list list" where
  "lookup_all sel [] = Inr []"
| "lookup_all sel (key # keys) =
     (case dict_getitem sel key of
        Inl e \<Rightarrow> Inl e
      | Inr vs \<Rightarrow>
          (case lookup_all sel keys of
             Inl e \<Rightarrow> Inl e
           | Inr vss \<Rightarrow> Inr (vs # vss)))"

text \<open>
  \<^verbatim>\<open>[params for _, params in config['parameters'].items() if isinstance(params, dict)]\<close>:
  the subsections of the parameters, in the order of the section.
\<close>

fun extra_params :: "params \<Rightarrow> params list" where
  "extra_params [] = []"
| "extra_params ((k, Dict d) # ps) = d # extra_params ps"
| "extra_params ((k, v) # ps) = extra_params ps"

text \<open>
  \<^verbatim>\<open>itertools.cycle(extra_params) if extra_params else itertools.repeat({})\<close>: an endless
  iterator, given by its element at each position.
\<close>

definition params_loop :: "params list \<Rightarrow> nat \<Rightarrow> params" where
  "params_loop extra i = (if extra \<noteq> [] then extra ! (i mod length extra) else [])"

text \<open>
  \<^verbatim>\<open>zip(fan_out, params_loop)\<close> ends with the finite \<^verbatim>\<open>fan_out\<close>.
\<close>

definition zip_params_loop :: "string list list \<Rightarrow> params list \<Rightarrow> (string list \<times> params) list" where
  "zip_params_loop fan_out extra =
     zip fan_out (map (params_loop extra) [0 ..< length fan_out])"

text \<open>
  \<^verbatim>\<open>for idx, key in enumerate(partition_keys): copy[key] = [option[idx]]\<close>. A combination
  of the product has one value for each key, so \<^verbatim>\<open>option[idx]\<close> is always in range.
\<close>

fun narrow :: "selection \<Rightarrow> string list \<Rightarrow> string list \<Rightarrow> selection" where
  "narrow copy (key # keys) (v # option) = narrow (dict_setitem copy key [v]) keys option"
| "narrow copy keys option = copy"

text \<open>
  The expander is a generator with a side effect on the manifest. What a consumer that
  runs it to its end observes is the sequence of its \<^verbatim>\<open>manifest.schedule\<close> calls and of
  the configurations it yields, and the exception that ended it, if one did.
\<close>

datatype event =
    Schedule selection string pyval
  | Yield config

text \<open>
  The body of the loop over \<^verbatim>\<open>zip(fan_out, params_loop)\<close>. The local variable
  \<^verbatim>\<open>selection\<close> is assigned the narrowed copy after each partition that is not
  skipped, so it is an argument of the loop.
\<close>

fun partition_loop ::
  "config \<Rightarrow> string list \<Rightarrow> store \<Rightarrow> selection \<Rightarrow> (string list \<times> params) list
     \<Rightarrow> event list \<times> pyerr option" where
  "partition_loop cfg partition_keys st sel [] = ([], None)"
| "partition_loop cfg partition_keys st sel ((option, params) # rest) =
     (let copy = narrow sel partition_keys option;
          out = cfg\<lparr>selection := Some copy,
                    parameters := dict_update (parameters cfg) params\<rparr>
      in
        (case skip_partition out st of
           Inl e \<Rightarrow> ([], Some e)
         | Inr True \<Rightarrow> partition_loop cfg partition_keys st sel rest
         | Inr False \<Rightarrow>
             (case prepare_target_name out of
                Inl e \<Rightarrow> ([], Some e)
              | Inr location \<Rightarrow>
                  (let user = dict_get (parameters out) ''user_id'' (Str ''unknown'');
                       r = partition_loop cfg partition_keys st copy rest
                   in (Schedule copy location user # Yield out # fst r, snd r)))))"

text \<open>
  What \<^verbatim>\<open>prepare_partition\<close> reads before its loop: the partition keys, the selection
  (\<^verbatim>\<open>config.get('selection', {})\<close>) and the value sequence of each key.
\<close>

definition partition_lists :: "config \<Rightarrow> pyerr + (string list \<times> selection \<times> string list list)" where
  "partition_lists cfg =
     (case dict_getitem (parameters cfg) ''partition_keys'' of
        Inl e \<Rightarrow> Inl e
      | Inr pk \<Rightarrow>
          (case py_iter pk of
             Inl e \<Rightarrow> Inl e
           | Inr partition_keys \<Rightarrow>
               (let sel = (case selection cfg of None \<Rightarrow> [] | Some s \<Rightarrow> s)
                in
                  (case lookup_all sel partition_keys of
                     Inl e \<Rightarrow> Inl e
                   | Inr value_lists \<Rightarrow> Inr (partition_keys, sel, value_lists)))))"

definition prepare_partition :: "config \<Rightarrow> store \<Rightarrow> event list \<times> pyerr option" where
  "prepare_partition cfg st =
     (case partition_lists cfg of
        Inl e \<Rightarrow> ([], Some e)
      | Inr (partition_keys, sel, value_lists) \<Rightarrow>
          partition_loop cfg partition_keys st sel
            (zip_params_loop (itertools_product value_lists)
               (extra_params (parameters cfg))))"

text \<open>The configurations a run of the expander yields, in order.\<close>

fun yields :: "event list \<Rightarrow> config list" where
  "yields [] = []"
| "yields (Yield out # evs) = out # yields evs"
| "yields (Schedule sel location user # evs) = yields evs"

text \<open>
  The candidate Partition of the combination at position \<open>i\<close> of the product: the
  selection narrowed to the combination, and the parameter group at position \<open>i\<close> of
  the cycle merged into the parameters.
\<close>

definition partition_at :: "config \<Rightarrow> nat \<Rightarrow> config" where
  "partition_at cfg i =
     (case partition_lists cfg of
        Inl e \<Rightarrow> cfg
      | Inr (partition_keys, sel, value_lists) \<Rightarrow>
          cfg\<lparr>selection := Some (narrow sel partition_keys (itertools_product value_lists ! i)),
              parameters := dict_update (parameters cfg)
                (params_loop (extra_params (parameters cfg)) i)\<rparr>)"

text \<open>The number of combinations of the product.\<close>

definition fan_out_size :: "config \<Rightarrow> nat" where
  "fan_out_size cfg =
     (case partition_lists cfg of
        Inl e \<Rightarrow> 0
      | Inr (partition_keys, sel, value_lists) \<Rightarrow> length (itertools_product value_lists))"

text \<open>
  The loop with every copy taken from the original selection. It is used to reason
  about \<^verbatim>\<open>partition_loop\<close>, which copies the selection of the last partition that was
  not skipped; the two agree (lemma \<open>partition_loop_expand\<close> below).
\<close>

fun expand ::
  "config \<Rightarrow> string list \<Rightarrow> store \<Rightarrow> selection \<Rightarrow> (string list \<times> params) list
     \<Rightarrow> event list \<times> pyerr option" where
  "expand cfg partition_keys st sel [] = ([], None)"
| "expand cfg partition_keys st sel ((option, params) # rest) =
     (let copy = narrow sel partition_keys option;
          out = cfg\<lparr>selection := Some copy,
                    parameters := dict_update (parameters cfg) params\<rparr>
      in
        (case skip_partition out st of
           Inl e \<Rightarrow> ([], Some e)
         | Inr True \<Rightarrow> expand cfg partition_keys st sel rest
         | Inr False \<Rightarrow>
             (case prepare_target_name out of
                Inl e \<Rightarrow> ([], Some e)
              | Inr location \<Rightarrow>
                  (let user = dict_get (parameters out) ''user_id'' (Str ''unknown'');
                       r = expand cfg partition_keys st sel rest
                   in (Schedule copy location user # Yield out # fst r, snd r)))))"

text \<open>The configuration that one pass of the loop builds from the original selection.\<close>

definition candidate :: "config \<Rightarrow> string list \<Rightarrow> selection \<Rightarrow> string list \<times> params \<Rightarrow> config" where
  "candidate cfg partition_keys sel w =
     cfg\<lparr>selection := Some (narrow sel partition_keys (fst w)),
         parameters := dict_update (parameters cfg) (snd w)\<rparr>"

text \<open>
  A sequence of events in which every yielded configuration comes right after the
  \<^verbatim>\<open>manifest.schedule\<close> call for its selection, its target name and its user, nothing
  else is scheduled, and no yielded configuration is one the skip check filters.
\<close>

fun registered :: "store \<Rightarrow> event list \<Rightarrow> bool" where
  "registered st [] = True"
| "registered st (Schedule sel location user # Yield out # evs) =
     (selection out = Some sel \<and> prepare_target_name out = Inr location
      \<and> user = dict_get (parameters out) ''user_id'' (Str ''unknown'')
      \<and> skip_partition out st = Inr False \<and> registered st evs)"
| "registered st evs = False"

section \<open>The manifest\<close>

text \<open>
  Modelled from the spec: the Manifest. The pipeline imports \<^verbatim>\<open>Manifest\<close> from
  \<^verbatim>\<open>manifest.py\<close>, which is not among the sources, so the ledger follows sections 3
  and 4.4 of the specification: an entry is keyed by (selection, target, user) and has
  one of four statuses; a \<^verbatim>\<open>failure\<close> records the triggering error.
\<close>

datatype status = Scheduled | InProgress | Success | Failure pyerr

type_synonym manifest_key = "selection \<times> string \<times> pyval"
type_synonym manifest = "manifest_key \<Rightarrow> status option"

text \<open>
  Modelled from the spec: \<^verbatim>\<open>schedule(selection, target, user)\<close> of the absent
  \<^verbatim>\<open>manifest.py\<close>, which records a \<^verbatim>\<open>scheduled\<close> entry and does not fail if an entry
  exists.
\<close>

definition schedule :: "manifest \<Rightarrow> manifest_key \<Rightarrow> manifest" where
  "schedule m k = m(k \<mapsto> Scheduled)"

text \<open>
  Modelled from the spec: \<^verbatim>\<open>transact(selection, target, user)\<close> of the absent
  \<^verbatim>\<open>manifest.py\<close>, a scoped transaction. On entry it fails with a
  \<^verbatim>\<open>ConcurrentDownloadError\<close> if the entry is \<^verbatim>\<open>in-progress\<close>, and otherwise makes it
  \<^verbatim>\<open>in-progress\<close>; the body then runs on the state outside the manifest; on normal
  exit the entry becomes \<^verbatim>\<open>success\<close>; if the body raises, the entry becomes
  \<^verbatim>\<open>failure\<close> with the error stored, and the error is raised again.
\<close>

definition transact ::
  "manifest \<Rightarrow> manifest_key \<Rightarrow> ('w \<Rightarrow> 'w \<times> (pyerr + 'a)) \<Rightarrow> 'w
     \<Rightarrow> manifest \<times> 'w \<times> (pyerr + 'a)" where
  "transact m k body w =
     (if m k = Some InProgress then (m, w, Inl ConcurrentDownloadError)
      else
        (let m_entered = m(k \<mapsto> InProgress);
             r = body w
         in
           (case snd r of
              Inl e \<Rightarrow> (m_entered(k \<mapsto> Failure e), fst r, Inl e)
            | Inr v \<Rightarrow> (m_entered(k \<mapsto> Success), fst r, Inr v))))"

text \<open>
  The manifest after a sequence of events of the expander: each \<^verbatim>\<open>manifest.schedule\<close>
  call is applied, with \<^verbatim>\<open>schedule\<close> as modelled from the specification above.
\<close>

fun record_events :: "manifest \<Rightarrow> event list \<Rightarrow> manifest" where
  "record_events m [] = m"
| "record_events m (Schedule sel location user # evs) =
     record_events (schedule m (sel, location, user)) evs"
| "record_events m (Yield out # evs) = record_events m evs"

section \<open>The fetch executor\<close>

text \<open>
  The client is an external collaborator: \<^verbatim>\<open>client.retrieve(dataset, selection, path)\<close>
  either raises or leaves the retrieved bytes in the temporary file.
\<close>

type_synonym client = "pyval \<Rightarrow> selection \<Rightarrow> pyerr + string"

text \<open>
  \<^verbatim>\<open>while True: chunk = temp.read(8192); if len(chunk) == 0: break; dest.write(chunk)\<close>:
  the chunks that are written.
\<close>

function read_chunks :: "string \<Rightarrow> string list" where
  "read_chunks bytes =
     (if take 8192 bytes = [] then []
      else take 8192 bytes # read_chunks (drop 8192 bytes))"
  by pat_completeness auto
termination
  by (relation "measure length") auto

declare read_chunks.simps [simp del]

definition upload :: "store \<Rightarrow> string \<Rightarrow> string \<Rightarrow> store" where
  "upload st target bytes = st(target \<mapsto> concat (read_chunks bytes))"

text \<open>
  The body of the transaction: retrieve into the temporary file, then copy the file to
  the store in chunks. An exception of the client leaves the store as it is.
\<close>

definition fetch_body ::
  "client \<Rightarrow> pyval \<Rightarrow> selection \<Rightarrow> string \<Rightarrow> store \<Rightarrow> store \<times> (pyerr + unit)" where
  "fetch_body retrieve dataset sel target w =
     (case retrieve dataset sel of
        Inl e \<Rightarrow> (w, Inl e)
      | Inr bytes \<Rightarrow> (upload w target bytes, Inr ()))"

definition fetch_data ::
  "config \<Rightarrow> client \<Rightarrow> manifest \<Rightarrow> store \<Rightarrow> manifest \<times> store \<times> (pyerr + unit)" where
  "fetch_data cfg retrieve m st =
     (let dataset = dict_get (parameters cfg) ''dataset'' (Str [])
      in
        (case prepare_target_name cfg of
           Inl e \<Rightarrow> (m, st, Inl e)
         | Inr target \<Rightarrow>
             (case selection cfg of
                None \<Rightarrow> (m, st, Inl (KeyError ''selection''))
              | Some sel \<Rightarrow>
                  (let user = dict_get (parameters cfg) ''user_id'' (Str ''unknown'')
                   in
                     transact m (sel, target, user)
                       (fetch_body retrieve dataset sel target) st))))"

section \<open>The orchestrator\<close>







text \<open>
  What a call of \<^verbatim>\<open>run\<close> does: the events of the expander, the exception that ended
  the expander (and with it \<^verbatim>\<open>run\<close>), the Partitions that were handed to
  \<^verbatim>\<open>fetch_data\<close> with the outcome of each invocation, and the manifest and the store
  at the end.
\<close>

record outcome =
  expanded :: "event list"
  raised :: "pyerr option"
  fetched :: "(config \<times> (pyerr + unit)) list"
  final_manifest :: manifest
  final_store :: store


section \<open>Example configurations\<close>

text \<open>
  The scenario of the specification: partition keys \<^verbatim>\<open>year\<close> and \<^verbatim>\<open>month\<close>, one year,
  two months and the template \<^verbatim>\<open>data-{}-{}.nc\<close>.
\<close>

definition scenario_config :: config where
  "scenario_config =
     \<lparr>selection = Some [(''year'', [''2020'']), (''month'', [''01'', ''02''])],
      parameters = [(''partition_keys'', Lst [''year'', ''month'']),
                    (''target_template'', Str ''data-{}-{}.nc'')]\<rparr>"

definition with_parameter :: "config \<Rightarrow> string \<Rightarrow> pyval \<Rightarrow> config" where
  "with_parameter cfg k v = cfg\<lparr>parameters := dict_setitem (parameters cfg) k v\<rparr>"

text \<open>A store that holds an (empty) object at each of the given targets.\<close>

definition holding :: "string list \<Rightarrow> store" where
  "holding targets = map_of (map (\<lambda>t. (t, [])) targets)"

text \<open>The scenario with no month to select.\<close>

definition empty_month_config :: config where
  "empty_month_config =
     scenario_config\<lparr>selection := Some [(''year'', [''2020'']), (''month'', [])]\<rparr>"

text \<open>The scenario with \<^verbatim>\<open>force_download=false\<close>.\<close>

definition unforced_config :: config where
  "unforced_config = with_parameter scenario_config ''force_download'' (Bool False)"

text \<open>
  The scenario with \<^verbatim>\<open>force_download=false\<close> and two parameter groups, \<^verbatim>\<open>a\<close> and
  \<^verbatim>\<open>b\<close>, each with an API key of its own.
\<close>

definition two_group_config :: config where
  "two_group_config =
     with_parameter
       (with_parameter unforced_config ''a'' (Dict [(''api_key'', Str ''A'')]))
       ''b'' (Dict [(''api_key'', Str ''B'')])"

text \<open>Five months and three parameter groups, \<^verbatim>\<open>a\<close>, \<^verbatim>\<open>b\<close> and \<^verbatim>\<open>c\<close>.\<close>

definition three_group_config :: config where
  "three_group_config =
     \<lparr>selection = Some [(''year'', [''2020'']),
                         (''month'', [''01'', ''02'', ''03'', ''04'', ''05''])],
      parameters = [(''partition_keys'', Lst [''year'', ''month'']),
                    (''target_template'', Str ''data-{}-{}.nc''),
                    (''a'', Dict [(''api_key'', Str ''A'')]),
                    (''b'', Dict [(''api_key'', Str ''B'')]),
                    (''c'', Dict [(''api_key'', Str ''C'')])]\<rparr>"

text \<open>The scenario without a selection for the month, and with a third field in the template.\<close>

definition no_month_config :: config where
  "no_month_config = scenario_config\<lparr>selection := Some [(''year'', [''2020''])]\<rparr>"

definition three_field_config :: config where
  "three_field_config = with_parameter scenario_config ''target_template'' (Str ''data-{}-{}-{}.nc'')"

text \<open>
  The scenario with the templates \<^verbatim>\<open>{0}-{1}-{2}\<close> (manually numbered fields),
  \<^verbatim>\<open>{}-{5}\<close> (automatic and manual numbering mixed) and \<^verbatim>\<open>{a}-{}-{}-{}\<close> (a named
  field).
\<close>

definition manual_config :: config where
  "manual_config = with_parameter scenario_config ''target_template'' (Str ''{0}-{1}-{2}'')"

definition mixed_config :: config where
  "mixed_config = with_parameter scenario_config ''target_template'' (Str ''{}-{5}'')"

definition named_config :: config where
  "named_config = with_parameter scenario_config ''target_template'' (Str ''{a}-{}-{}-{}'')"

text \<open>The scenario with a parameter group that carries a \<^verbatim>\<open>user_id\<close>.\<close>

definition user_group_config :: config where
  "user_group_config =
     with_parameter scenario_config ''research'' (Dict [(''user_id'', Str ''bob'')])"

text \<open>The first Partition of the scenario, and the key of its manifest entry.\<close>

definition first_partition :: config where
  "first_partition =
     \<lparr>selection = Some [(''year'', [''2020'']), (''month'', [''01''])],
      parameters = [(''partition_keys'', Lst [''year'', ''month'']),
                    (''target_template'', Str ''data-{}-{}.nc'')]\<rparr>"

definition first_key :: manifest_key where
  "first_key = ([(''year'', [''2020'']), (''month'', [''01''])], ''data-2020-01.nc'', Str ''unknown'')"





section \<open>Properties\<close>

lemmas eval_defs = scenario_config_def with_parameter_def holding_def
  skip_partition_def prepare_target_name_def dict_getitem_def dict_get_def dict_keys_def
  store_exists_def py_format_def emit_def outside_fragment_def digit_val_def PY_SSIZE_T_MAX_def

lemmas run_defs = prepare_partition_def partition_lists_def zip_params_loop_def params_loop_def
  partition_at_def fan_out_size_def Let_def

lemma in_dict_keys_iff: "k \<in> set (dict_keys d) \<longleftrightarrow> map_of d k \<noteq> None"
  by (simp add: dict_keys_def map_of_eq_None_iff)

lemma map_of_dict_setitem: "map_of (dict_setitem d k v) = (map_of d)(k \<mapsto> v)"
  by (induction d) (auto simp: fun_eq_iff)

text \<open>
  \<^verbatim>\<open>d.update(e)\<close> leaves at each key the last value that \<^verbatim>\<open>e\<close> binds to it, and
  the value of \<^verbatim>\<open>d\<close> at the keys that \<^verbatim>\<open>e\<close> does not bind.
\<close>

lemma map_of_dict_update:
  "map_of (dict_update d e) = map_of d ++ map_of (rev e)"
proof (induction d e rule: dict_update.induct)
  case (1 d)
  then show ?case by simp
next
  case (2 d k v e)
  have "map_of (dict_update d ((k, v) # e)) = (map_of d)(k \<mapsto> v) ++ map_of (rev e)"
    using 2 by (simp only: dict_update.simps map_of_dict_setitem)
  also have "\<dots> = map_of d ++ (map_of [(k, v)] ++ map_of (rev e))"
    by (simp add: fun_eq_iff map_add_def split: option.splits)
  also have "\<dots> = map_of d ++ map_of (rev ((k, v) # e))"
    by (simp only: rev.simps map_of_append)
  finally show ?case .
qed

subsection \<open>The skip check\<close>

text \<open>
  C1 (amended). The skip check answers true exactly when \<^verbatim>\<open>force_download\<close> is present in
  \<^verbatim>\<open>parameters\<close> with a false value, the target name can be computed and the store
  holds an object at it. When \<^verbatim>\<open>force_download\<close> is absent the check answers false
  without looking at the store, and when it is true the check answers false as well.
\<close>

theorem skip_partition_policy:
  "(skip_partition cfg st = Inr True \<longleftrightarrow>
      (\<exists>fd target. map_of (parameters cfg) ''force_download'' = Some fd \<and> \<not> truthy fd
         \<and> prepare_target_name cfg = Inr target \<and> store_exists st target))
   \<and> (map_of (parameters cfg) ''force_download'' = None \<longrightarrow> skip_partition cfg st = Inr False)
   \<and> (\<forall>fd. map_of (parameters cfg) ''force_download'' = Some fd \<and> truthy fd
         \<longrightarrow> skip_partition cfg st = Inr False)"
  by (auto simp: skip_partition_def dict_getitem_def in_dict_keys_iff
      split: option.splits sum.splits)

theorem skip_partition_policy_witness:
  "skip_partition (with_parameter scenario_config ''force_download'' (Bool False))
     (holding [''data-2020-01.nc'']) = Inr True
   \<and> skip_partition scenario_config (holding [''data-2020-01.nc'']) = Inr False
   \<and> skip_partition (with_parameter scenario_config ''force_download'' (Bool True))
     (holding [''data-2020-01.nc'']) = Inr False"
  using skip_partition_policy [of "with_parameter scenario_config ''force_download'' (Bool False)"
      "holding [''data-2020-01.nc'']"]
    skip_partition_policy [of scenario_config "holding [''data-2020-01.nc'']"]
    skip_partition_policy [of "with_parameter scenario_config ''force_download'' (Bool True)"
      "holding [''data-2020-01.nc'']"]
  by (simp add: eval_defs)

text \<open>
  C1 as stated fails: with \<^verbatim>\<open>force_download\<close> unset and an object at the computed target,
  the check does not skip.
\<close>

theorem skip_unset_force_download_counterexample:
  "map_of (parameters scenario_config) ''force_download'' = None
   \<and> prepare_target_name scenario_config = Inr ''data-2020-01.nc''
   \<and> store_exists (holding [''data-2020-01.nc'']) ''data-2020-01.nc''
   \<and> skip_partition scenario_config (holding [''data-2020-01.nc'']) = Inr False"
  by (simp add: eval_defs)

subsection \<open>The loop of the expander\<close>

text \<open>
  Narrowing writes one value for each partition key. When every partition key is a key
  of the selection, narrowing a narrowed selection again gives what narrowing the
  original gives, so it does not matter that the loop copies the selection of the last
  partition it kept.
\<close>

lemma dict_keys_setitem:
  "set (dict_keys (dict_setitem d k v)) = insert k (set (dict_keys d))"
  by (induction d) (force simp: dict_keys_def)+

lemma dict_setitem_twice: "dict_setitem (dict_setitem d k a) k b = dict_setitem d k b"
  by (induction d) auto

lemma dict_setitem_swap:
  "k \<noteq> k' \<Longrightarrow> k' \<in> set (dict_keys d) \<Longrightarrow>
     dict_setitem (dict_setitem d k a) k' b = dict_setitem (dict_setitem d k' b) k a"
  by (induction d) (force simp: dict_keys_def)+

lemma dict_keys_narrow:
  "set (dict_keys d) \<subseteq> set (dict_keys (narrow d ks vs))"
  by (induction d ks vs rule: narrow.induct) (auto simp: dict_keys_setitem)

lemma narrow_absorb:
  "k \<in> set ks \<Longrightarrow> set ks \<subseteq> set (dict_keys d) \<Longrightarrow> length vs = length ks \<Longrightarrow>
     narrow (dict_setitem d k a) ks vs = narrow d ks vs"
proof (induction ks arbitrary: d vs)
  case Nil
  then show ?case by simp
next
  case (Cons k1 ks)
  then obtain v1 vs' where vs: "vs = v1 # vs'" by (cases vs) auto
  show ?case
  proof (cases "k = k1")
    case True
    then show ?thesis by (simp add: vs dict_setitem_twice)
  next
    case False
    with Cons.prems have "k \<in> set ks" by simp
    moreover have "set ks \<subseteq> set (dict_keys (dict_setitem d k1 [v1]))"
      using Cons.prems by (auto simp: dict_keys_setitem)
    moreover have "length vs' = length ks" using Cons.prems vs by simp
    ultimately have "narrow (dict_setitem (dict_setitem d k1 [v1]) k a) ks vs'
        = narrow (dict_setitem d k1 [v1]) ks vs'"
      by (rule Cons.IH)
    moreover have "dict_setitem (dict_setitem d k a) k1 [v1]
        = dict_setitem (dict_setitem d k1 [v1]) k a"
      using False Cons.prems by (intro dict_setitem_swap) auto
    ultimately show ?thesis by (simp add: vs)
  qed
qed

lemma narrow_after_updates:
  "set js \<subseteq> set ks \<Longrightarrow> set ks \<subseteq> set (dict_keys d) \<Longrightarrow> length vs = length ks \<Longrightarrow>
     narrow (narrow d js us) ks vs = narrow d ks vs"
proof (induction d js us rule: narrow.induct)
  case (1 copy key keys v option)
  have "narrow (narrow (dict_setitem copy key [v]) keys option) ks vs
      = narrow (dict_setitem copy key [v]) ks vs"
    using 1 by (auto simp: dict_keys_setitem)
  also have "\<dots> = narrow copy ks vs"
    using 1 by (simp add: narrow_absorb)
  finally show ?case by simp
qed simp_all

lemma narrow_twice:
  "set ks \<subseteq> set (dict_keys d) \<Longrightarrow> length vs = length ks \<Longrightarrow>
     narrow (narrow d ks us) ks vs = narrow d ks vs"
  by (rule narrow_after_updates) auto

lemma partition_loop_expand:
  "set ks \<subseteq> set (dict_keys sel) \<Longrightarrow> set ks \<subseteq> set (dict_keys sel') \<Longrightarrow>
   \<forall>w \<in> set work. length (fst w) = length ks \<Longrightarrow>
   \<forall>vs. length vs = length ks \<longrightarrow> narrow sel' ks vs = narrow sel ks vs \<Longrightarrow>
   partition_loop cfg ks st sel' work = expand cfg ks st sel work"
proof (induction work arbitrary: sel')
  case Nil
  then show ?case by simp
next
  case (Cons w work)
  obtain option params where w: "w = (option, params)" by (cases w)
  have len: "length option = length ks" using Cons.prems w by simp
  have eq: "narrow sel' ks option = narrow sel ks option" using Cons.prems len by simp
  have skipped: "partition_loop cfg ks st sel' work = expand cfg ks st sel work"
    using Cons.prems by (intro Cons.IH) auto
  have kept: "partition_loop cfg ks st (narrow sel ks option) work = expand cfg ks st sel work"
  proof (rule Cons.IH)
    show "set ks \<subseteq> set (dict_keys sel)" by fact
    show "set ks \<subseteq> set (dict_keys (narrow sel ks option))"
      using Cons.prems(1) dict_keys_narrow by blast
    show "\<forall>w\<in>set work. length (fst w) = length ks" using Cons.prems by simp
    show "\<forall>vs. length vs = length ks \<longrightarrow>
        narrow (narrow sel ks option) ks vs = narrow sel ks vs"
      using Cons.prems(1) by (simp add: narrow_twice)
  qed
  show ?case
    by (simp add: w eq skipped kept Let_def split: sum.splits bool.splits)
qed

lemma lookup_all_keys:
  "lookup_all sel ks = Inr vss \<Longrightarrow> set ks \<subseteq> set (dict_keys sel) \<and> length vss = length ks"
  by (induction ks arbitrary: vss)
    (auto simp: dict_getitem_def in_dict_keys_iff split: option.splits sum.splits)

lemma length_itertools_product:
  "length (itertools_product xss) = prod_list (map length xss)"
  by (induction xss) (simp_all add: length_concat comp_def sum_list_triv)

lemma length_combination:
  "xs \<in> set (itertools_product xss) \<Longrightarrow> length xs = length xss"
  by (induction xss arbitrary: xs) auto

lemma zip_params_loop_nth:
  "zip_params_loop fan_out extra
     = map (\<lambda>i. (fan_out ! i, params_loop extra i)) [0 ..< length fan_out]"
  unfolding zip_params_loop_def
  by (rule nth_equalityI) simp_all

lemma prepare_partition_expand:
  assumes "partition_lists cfg = Inr (ks, sel, vss)"
  shows "prepare_partition cfg st
    = expand cfg ks st sel
        (zip_params_loop (itertools_product vss) (extra_params (parameters cfg)))"
proof -
  have l: "lookup_all sel ks = Inr vss"
    using assms by (auto simp: partition_lists_def Let_def split: sum.splits)
  have "partition_loop cfg ks st sel
          (zip_params_loop (itertools_product vss) (extra_params (parameters cfg)))
      = expand cfg ks st sel
          (zip_params_loop (itertools_product vss) (extra_params (parameters cfg)))"
  proof (rule partition_loop_expand)
    show "set ks \<subseteq> set (dict_keys sel)" using lookup_all_keys [OF l] by simp
    then show "set ks \<subseteq> set (dict_keys sel)" .
    show "\<forall>w\<in>set (zip_params_loop (itertools_product vss) (extra_params (parameters cfg))).
        length (fst w) = length ks"
      using lookup_all_keys [OF l]
      by (auto simp: zip_params_loop_def dest!: set_zip_leftD length_combination)
    show "\<forall>vs. length vs = length ks \<longrightarrow> narrow sel ks vs = narrow sel ks vs" by simp
  qed
  then show ?thesis using assms by (simp add: prepare_partition_def)
qed

lemma expand_step:
  "expand cfg ks st sel (w # work) =
     (case skip_partition (candidate cfg ks sel w) st of
        Inl e \<Rightarrow> ([], Some e)
      | Inr True \<Rightarrow> expand cfg ks st sel work
      | Inr False \<Rightarrow>
          (case prepare_target_name (candidate cfg ks sel w) of
             Inl e \<Rightarrow> ([], Some e)
           | Inr location \<Rightarrow>
               (Schedule (narrow sel ks (fst w)) location
                  (dict_get (parameters (candidate cfg ks sel w)) ''user_id'' (Str ''unknown''))
                # Yield (candidate cfg ks sel w) # fst (expand cfg ks st sel work),
                snd (expand cfg ks st sel work))))"
  by (cases w) (simp add: candidate_def Let_def split: sum.splits bool.splits)

lemma expand_yields:
  "snd (expand cfg ks st sel work) = None \<Longrightarrow>
     yields (fst (expand cfg ks st sel work))
       = filter (\<lambda>out. skip_partition out st = Inr False) (map (candidate cfg ks sel) work)"
proof (induction work)
  case Nil
  then show ?case by simp
next
  case (Cons w work)
  show ?case
  proof (cases "skip_partition (candidate cfg ks sel w) st")
    case (Inl e)
    then show ?thesis using Cons.prems by (simp add: expand_step)
  next
    case (Inr b)
    show ?thesis
    proof (cases b)
      case True
      then show ?thesis using Inr Cons by (simp add: expand_step)
    next
      case False
      then show ?thesis using Inr Cons
        by (cases "prepare_target_name (candidate cfg ks sel w)") (simp_all add: expand_step)
    qed
  qed
qed

lemma expand_yields_prefix:
  "\<exists>rest. filter (\<lambda>out. skip_partition out st = Inr False) (map (candidate cfg ks sel) work)
     = yields (fst (expand cfg ks st sel work)) @ rest"
proof (induction work)
  case Nil
  then show ?case by simp
next
  case (Cons w work)
  show ?case
  proof (cases "skip_partition (candidate cfg ks sel w) st")
    case (Inl e)
    then show ?thesis by (simp add: expand_step)
  next
    case (Inr b)
    show ?thesis
    proof (cases b)
      case True
      then show ?thesis using Inr Cons by (simp add: expand_step)
    next
      case False
      then show ?thesis using Inr Cons
        by (cases "prepare_target_name (candidate cfg ks sel w)") (simp_all add: expand_step)
    qed
  qed
qed

lemma expand_registered: "registered st (fst (expand cfg ks st sel work))"
proof (induction work)
  case Nil
  then show ?case by simp
next
  case (Cons w work)
  obtain option params where w: "w = (option, params)" by (cases w)
  show ?case using Cons.IH
    by (simp add: w Let_def split: sum.splits bool.splits)
qed

lemma expand_total:
  assumes "\<forall>w\<in>set work. skip_partition (candidate cfg ks sel w) st = Inr False
      \<and> (\<exists>t. prepare_target_name (candidate cfg ks sel w) = Inr t)"
  shows "snd (expand cfg ks st sel work) = None
    \<and> yields (fst (expand cfg ks st sel work)) = map (candidate cfg ks sel) work"
  using assms
proof (induction work)
  case Nil
  then show ?case by simp
next
  case (Cons w work)
  from Cons.prems obtain t where
    "skip_partition (candidate cfg ks sel w) st = Inr False"
    "prepare_target_name (candidate cfg ks sel w) = Inr t"
    by auto
  moreover have "snd (expand cfg ks st sel work) = None
    \<and> yields (fst (expand cfg ks st sel work)) = map (candidate cfg ks sel) work"
    using Cons by simp
  ultimately show ?case by (simp add: expand_step)
qed

lemma candidates_partition_at:
  assumes "partition_lists cfg = Inr (ks, sel, vss)"
  shows "map (candidate cfg ks sel)
      (zip_params_loop (itertools_product vss) (extra_params (parameters cfg)))
    = map (partition_at cfg) [0 ..< fan_out_size cfg]"
  using assms
  by (simp add: zip_params_loop_nth candidate_def partition_at_def fan_out_size_def)

lemma partition_lists_cases:
  obtains (fails) e where "partition_lists cfg = Inl e" "prepare_partition cfg st = ([], Some e)"
      "fan_out_size cfg = 0"
  | (reads) ks sel vss where "partition_lists cfg = Inr (ks, sel, vss)"
      "prepare_partition cfg st
         = expand cfg ks st sel
             (zip_params_loop (itertools_product vss) (extra_params (parameters cfg)))"
      "map (candidate cfg ks sel)
           (zip_params_loop (itertools_product vss) (extra_params (parameters cfg)))
         = map (partition_at cfg) [0 ..< fan_out_size cfg]"
proof (cases "partition_lists cfg")
  case (Inl e)
  then show ?thesis
    by (intro fails [of e]) (simp_all add: prepare_partition_def fan_out_size_def)
next
  case (Inr r)
  obtain ks sel vss where r: "r = (ks, sel, vss)" by (cases r)
  show ?thesis
    using Inr r prepare_partition_expand candidates_partition_at
    by (intro reads [of ks sel vss]) simp_all
qed

lemma yields_prepare_partition:
  assumes "snd (prepare_partition cfg st) = None"
  shows "yields (fst (prepare_partition cfg st))
    = map (partition_at cfg)
        [i \<leftarrow> [0 ..< fan_out_size cfg]. skip_partition (partition_at cfg i) st = Inr False]"
proof (cases rule: partition_lists_cases [of cfg st])
  case (fails e)
  then show ?thesis using assms by simp
next
  case (reads ks sel vss)
  have "yields (fst (prepare_partition cfg st))
      = filter (\<lambda>out. skip_partition out st = Inr False)
          (map (partition_at cfg) [0 ..< fan_out_size cfg])"
    using expand_yields [of cfg ks st sel] assms reads by simp
  then show ?thesis by (simp add: filter_map comp_def)
qed

lemma yields_prepare_partition_prefix:
  "\<exists>rest. map (partition_at cfg)
        [i \<leftarrow> [0 ..< fan_out_size cfg]. skip_partition (partition_at cfg i) st = Inr False]
     = yields (fst (prepare_partition cfg st)) @ rest"
proof (cases rule: partition_lists_cases [of cfg st])
  case (fails e)
  then show ?thesis by simp
next
  case (reads ks sel vss)
  obtain rest where "filter (\<lambda>out. skip_partition out st = Inr False)
          (map (partition_at cfg) [0 ..< fan_out_size cfg])
      = yields (fst (prepare_partition cfg st)) @ rest"
    using expand_yields_prefix [of st cfg ks sel
        "zip_params_loop (itertools_product vss) (extra_params (parameters cfg))"] reads
    by auto
  then show ?thesis by (simp add: filter_map comp_def)
qed

lemma registered_prepare_partition: "registered st (fst (prepare_partition cfg st))"
proof (cases rule: partition_lists_cases [of cfg st])
  case (fails e)
  then show ?thesis by simp
next
  case (reads ks sel vss)
  then show ?thesis by (simp add: expand_registered)
qed

lemma prepare_partition_total:
  assumes "\<forall>i<fan_out_size cfg. skip_partition (partition_at cfg i) st = Inr False
      \<and> (\<exists>t. prepare_target_name (partition_at cfg i) = Inr t)"
    and "partition_lists cfg = Inr (ks, sel, vss)"
  shows "snd (prepare_partition cfg st) = None
    \<and> yields (fst (prepare_partition cfg st)) = map (partition_at cfg) [0 ..< fan_out_size cfg]"
proof (cases rule: partition_lists_cases [of cfg st])
  case (fails e)
  then show ?thesis using assms by simp
next
  case (reads ks' sel' vss')
  let ?work = "zip_params_loop (itertools_product vss') (extra_params (parameters cfg))"
  have "\<forall>out\<in>set (map (candidate cfg ks' sel') ?work).
      skip_partition out st = Inr False \<and> (\<exists>t. prepare_target_name out = Inr t)"
    unfolding reads(3) using assms(1) by auto
  then have "\<forall>w\<in>set ?work. skip_partition (candidate cfg ks' sel' w) st = Inr False
      \<and> (\<exists>t. prepare_target_name (candidate cfg ks' sel' w) = Inr t)"
    by simp
  from expand_total [OF this] show ?thesis using reads by simp
qed

text \<open>
  When the skip check filters no candidate, the Partitions that are yielded are the
  first candidates of the product, up to the first one whose skip check or target name
  raises; such a candidate ends the expander with its exception.
\<close>

lemma skip_partition_raises:
  "skip_partition out st = Inl e \<Longrightarrow> prepare_target_name out = Inl e"
  by (auto simp: skip_partition_def dict_getitem_def in_dict_keys_iff
      split: if_splits option.splits sum.splits)

lemma skip_partition_passes:
  "skip_partition out st \<noteq> Inr True \<Longrightarrow> prepare_target_name out = Inr t \<Longrightarrow>
     skip_partition out st = Inr False"
  by (cases "skip_partition out st") (auto dest: skip_partition_raises)

lemma expand_unfiltered_prefix:
  "\<forall>w\<in>set work. skip_partition (candidate cfg ks sel w) st \<noteq> Inr True \<Longrightarrow>
     \<exists>rest. map (candidate cfg ks sel) work = yields (fst (expand cfg ks st sel work)) @ rest"
proof (induction work)
  case Nil
  then show ?case by simp
next
  case (Cons w work)
  show ?case
  proof (cases "skip_partition (candidate cfg ks sel w) st")
    case (Inl e)
    then show ?thesis by (simp add: expand_step)
  next
    case (Inr b)
    then have "\<not> b" using Cons.prems by auto
    then show ?thesis using Inr Cons
      by (cases "prepare_target_name (candidate cfg ks sel w)") (simp_all add: expand_step)
  qed
qed

lemma expand_raises:
  "\<forall>w\<in>set work. skip_partition (candidate cfg ks sel w) st \<noteq> Inr True \<Longrightarrow>
   \<exists>w\<in>set work. \<forall>t. prepare_target_name (candidate cfg ks sel w) \<noteq> Inr t \<Longrightarrow>
     snd (expand cfg ks st sel work) \<noteq> None
     \<and> length (yields (fst (expand cfg ks st sel work))) < length work"
proof (induction work)
  case Nil
  then show ?case by simp
next
  case (Cons w work)
  show ?case
  proof (cases "skip_partition (candidate cfg ks sel w) st")
    case (Inl e)
    then show ?thesis by (simp add: expand_step)
  next
    case (Inr b)
    then have b: "\<not> b" using Cons.prems by auto
    show ?thesis
    proof (cases "prepare_target_name (candidate cfg ks sel w)")
      case (Inl e)
      then show ?thesis using Inr b by (simp add: expand_step)
    next
      case named: (Inr t)
      then have "\<exists>w\<in>set work. \<forall>t. prepare_target_name (candidate cfg ks sel w) \<noteq> Inr t"
        using Cons.prems(2) by auto
      then have "snd (expand cfg ks st sel work) \<noteq> None
          \<and> length (yields (fst (expand cfg ks st sel work))) < length work"
        using Cons.prems(1) by (intro Cons.IH) simp_all
      then show ?thesis using Inr b named by (simp add: expand_step)
    qed
  qed
qed

lemma candidates_ball:
  assumes "map (candidate cfg ks sel) work = map (partition_at cfg) [0 ..< n]"
  shows "(\<forall>w\<in>set work. P (candidate cfg ks sel w)) \<longleftrightarrow> (\<forall>i<n. P (partition_at cfg i))"
proof -
  have "(\<forall>w\<in>set work. P (candidate cfg ks sel w))
      \<longleftrightarrow> (\<forall>out\<in>set (map (candidate cfg ks sel) work). P out)"
    by simp
  also have "\<dots> \<longleftrightarrow> (\<forall>i<n. P (partition_at cfg i))"
    unfolding assms by auto
  finally show ?thesis .
qed

lemma prepare_partition_unfiltered_prefix:
  assumes "\<forall>i<fan_out_size cfg. skip_partition (partition_at cfg i) st \<noteq> Inr True"
  shows "\<exists>rest. map (partition_at cfg) [0 ..< fan_out_size cfg]
      = yields (fst (prepare_partition cfg st)) @ rest"
proof (cases rule: partition_lists_cases [of cfg st])
  case (fails e)
  then show ?thesis by simp
next
  case (reads ks sel vss)
  let ?work = "zip_params_loop (itertools_product vss) (extra_params (parameters cfg))"
  have "\<forall>w\<in>set ?work. skip_partition (candidate cfg ks sel w) st \<noteq> Inr True"
    using assms candidates_ball [OF reads(3), of "\<lambda>out. skip_partition out st \<noteq> Inr True"]
    by simp
  from expand_unfiltered_prefix [OF this] show ?thesis using reads by simp
qed

lemma prepare_partition_raises:
  assumes "\<forall>i<fan_out_size cfg. skip_partition (partition_at cfg i) st \<noteq> Inr True"
    and "\<exists>i<fan_out_size cfg. \<forall>t. prepare_target_name (partition_at cfg i) \<noteq> Inr t"
  shows "snd (prepare_partition cfg st) \<noteq> None
    \<and> length (yields (fst (prepare_partition cfg st))) < fan_out_size cfg"
proof (cases rule: partition_lists_cases [of cfg st])
  case (fails e)
  then show ?thesis using assms by simp
next
  case (reads ks sel vss)
  let ?work = "zip_params_loop (itertools_product vss) (extra_params (parameters cfg))"
  have "\<forall>w\<in>set ?work. skip_partition (candidate cfg ks sel w) st \<noteq> Inr True"
    using assms(1) candidates_ball [OF reads(3), of "\<lambda>out. skip_partition out st \<noteq> Inr True"]
    by simp
  moreover have "\<not> (\<forall>w\<in>set ?work. \<exists>t. prepare_target_name (candidate cfg ks sel w) = Inr t)"
    using assms(2) candidates_ball [OF reads(3), of "\<lambda>out. \<exists>t. prepare_target_name out = Inr t"]
    by auto
  then have "\<exists>w\<in>set ?work. \<forall>t. prepare_target_name (candidate cfg ks sel w) \<noteq> Inr t"
    by auto
  ultimately have "snd (expand cfg ks st sel ?work) \<noteq> None
      \<and> length (yields (fst (expand cfg ks st sel ?work))) < length ?work"
    by (rule expand_raises)
  moreover have "length ?work = fan_out_size cfg"
    using reads(1) by (simp add: zip_params_loop_def fan_out_size_def)
  ultimately show ?thesis using reads by simp
qed

subsection \<open>The number of Partitions\<close>

lemma fan_out_size_eq:
  "partition_lists cfg = Inr (ks, sel, vss) \<Longrightarrow> fan_out_size cfg = prod_list (map length vss)"
  by (simp add: fan_out_size_def length_itertools_product)

text \<open>
  C3 (amended). Let the partition keys have the value sequences \<open>vss\<close>; the product has
  as many candidates as the product of their sizes. When the skip check filters no
  candidate and the target of every candidate can be named, the expander ends without
  an exception and yields that many Partitions. When the skip check filters no
  candidate and the target of some candidate cannot be named, the expander ends with
  an exception and yields fewer. When a value sequence is empty the expander yields
  nothing.
\<close>

theorem prepare_partition_count:
  assumes "partition_lists cfg = Inr (ks, sel, vss)"
  shows "fan_out_size cfg = prod_list (map length vss)
         \<and> ((\<forall>i<fan_out_size cfg. skip_partition (partition_at cfg i) st \<noteq> Inr True) \<longrightarrow>
              ((\<forall>i<fan_out_size cfg. \<exists>t. prepare_target_name (partition_at cfg i) = Inr t) \<longrightarrow>
                 snd (prepare_partition cfg st) = None
                 \<and> length (yields (fst (prepare_partition cfg st))) = prod_list (map length vss))
              \<and> ((\<exists>i<fan_out_size cfg. \<forall>t. prepare_target_name (partition_at cfg i) \<noteq> Inr t) \<longrightarrow>
                 snd (prepare_partition cfg st) \<noteq> None
                 \<and> length (yields (fst (prepare_partition cfg st))) < prod_list (map length vss)))
         \<and> ([] \<in> set vss \<longrightarrow> prepare_partition cfg st = ([], None))"
proof (intro conjI impI)
  show size: "fan_out_size cfg = prod_list (map length vss)"
    by (rule fan_out_size_eq [OF assms])
  {
    assume unfiltered: "\<forall>i<fan_out_size cfg. skip_partition (partition_at cfg i) st \<noteq> Inr True"
      and named: "\<forall>i<fan_out_size cfg. \<exists>t. prepare_target_name (partition_at cfg i) = Inr t"
    have ok: "\<forall>i<fan_out_size cfg. skip_partition (partition_at cfg i) st = Inr False
        \<and> (\<exists>t. prepare_target_name (partition_at cfg i) = Inr t)"
      using unfiltered named skip_partition_passes by blast
    from prepare_partition_total [OF ok assms]
    show "snd (prepare_partition cfg st) = None"
      and "length (yields (fst (prepare_partition cfg st))) = prod_list (map length vss)"
      by (simp_all add: size)
  }
  {
    assume unfiltered: "\<forall>i<fan_out_size cfg. skip_partition (partition_at cfg i) st \<noteq> Inr True"
      and unnamed: "\<exists>i<fan_out_size cfg. \<forall>t. prepare_target_name (partition_at cfg i) \<noteq> Inr t"
    from prepare_partition_raises [OF unfiltered unnamed]
    show "snd (prepare_partition cfg st) \<noteq> None"
      and "length (yields (fst (prepare_partition cfg st))) < prod_list (map length vss)"
      by (simp_all add: size)
  }
  assume "[] \<in> set vss"
  then have "prod_list (map length vss) = 0"
    by (simp add: prod_list_zero_iff image_iff)
  then have "itertools_product vss = []"
    using length_itertools_product [of vss] by simp
  then show "prepare_partition cfg st = ([], None)"
    using assms prepare_partition_expand [OF assms, of st]
    by (simp add: zip_params_loop_def)
qed

lemma scenario_lists:
  "partition_lists scenario_config
     = Inr ([''year'', ''month''], [(''year'', [''2020'']), (''month'', [''01'', ''02''])],
            [[''2020''], [''01'', ''02'']])"
  by (simp add: run_defs eval_defs)

lemma scenario_events:
  "prepare_partition scenario_config (holding []) =
    ([Schedule [(''year'', [''2020'']), (''month'', [''01''])] ''data-2020-01.nc'' (Str ''unknown''),
      Yield \<lparr>selection = Some [(''year'', [''2020'']), (''month'', [''01''])],
             parameters = [(''partition_keys'', Lst [''year'', ''month'']),
                    (''target_template'', Str ''data-{}-{}.nc'')]\<rparr>,
      Schedule [(''year'', [''2020'']), (''month'', [''02''])] ''data-2020-02.nc'' (Str ''unknown''),
      Yield \<lparr>selection = Some [(''year'', [''2020'']), (''month'', [''02''])],
             parameters = [(''partition_keys'', Lst [''year'', ''month'']),
                    (''target_template'', Str ''data-{}-{}.nc'')]\<rparr>], None)"
  by (simp add: run_defs eval_defs)

lemma three_field_lists:
  "partition_lists three_field_config
     = Inr ([''year'', ''month''], [(''year'', [''2020'']), (''month'', [''01'', ''02''])],
            [[''2020''], [''01'', ''02'']])"
  by (simp add: three_field_config_def run_defs eval_defs)

theorem prepare_partition_count_witness:
  "snd (prepare_partition scenario_config (holding [])) = None
   \<and> length (yields (fst (prepare_partition scenario_config (holding [])))) = 2
   \<and> snd (prepare_partition three_field_config (holding [])) \<noteq> None
   \<and> length (yields (fst (prepare_partition three_field_config (holding [])))) < 2
   \<and> prepare_partition empty_month_config (holding []) = ([], None)"
proof -
  have two: "fan_out_size scenario_config = 2"
    by (simp add: fan_out_size_eq [OF scenario_lists])
  have "\<forall>i<fan_out_size scenario_config.
      skip_partition (partition_at scenario_config i) (holding []) \<noteq> Inr True"
    unfolding two by (simp add: numeral_2_eq_2 All_less_Suc run_defs eval_defs)
  moreover have "\<forall>i<fan_out_size scenario_config.
      \<exists>t. prepare_target_name (partition_at scenario_config i) = Inr t"
    unfolding two by (simp add: numeral_2_eq_2 All_less_Suc run_defs eval_defs)
  ultimately have "snd (prepare_partition scenario_config (holding [])) = None
      \<and> length (yields (fst (prepare_partition scenario_config (holding []))))
          = prod_list (map length [[''2020''], [''01'', ''02'']])"
    using prepare_partition_count [OF scenario_lists, of "holding []"] by blast
  then have scenario: "snd (prepare_partition scenario_config (holding [])) = None
      \<and> length (yields (fst (prepare_partition scenario_config (holding [])))) = 2"
    by simp
  have three: "fan_out_size three_field_config = 2"
    by (simp add: fan_out_size_eq [OF three_field_lists])
  have "\<forall>i<fan_out_size three_field_config.
      skip_partition (partition_at three_field_config i) (holding []) \<noteq> Inr True"
    unfolding three
    by (simp add: numeral_2_eq_2 All_less_Suc three_field_config_def run_defs eval_defs)
  moreover have "\<forall>t. prepare_target_name (partition_at three_field_config 0) \<noteq> Inr t"
    by (simp add: three_field_config_def run_defs eval_defs)
  then have "\<exists>i<fan_out_size three_field_config.
      \<forall>t. prepare_target_name (partition_at three_field_config i) \<noteq> Inr t"
    unfolding three by (intro exI [of _ 0]) simp
  ultimately have "snd (prepare_partition three_field_config (holding [])) \<noteq> None
      \<and> length (yields (fst (prepare_partition three_field_config (holding []))))
          < prod_list (map length [[''2020''], [''01'', ''02'']])"
    using prepare_partition_count [OF three_field_lists, of "holding []"] by blast
  then have fewer: "snd (prepare_partition three_field_config (holding [])) \<noteq> None
      \<and> length (yields (fst (prepare_partition three_field_config (holding [])))) < 2"
    by simp
  have "partition_lists empty_month_config
      = Inr ([''year'', ''month''], [(''year'', [''2020'']), (''month'', [])], [[''2020''], []])"
    by (simp add: empty_month_config_def run_defs eval_defs)
  then have "prepare_partition empty_month_config (holding []) = ([], None)"
    using prepare_partition_count [of empty_month_config _ _ "[[''2020''], []]" "holding []"]
    by simp
  with scenario fewer show ?thesis by simp
qed

text \<open>
  C3 as stated fails: the template \<^verbatim>\<open>data-{}-{}-{}.nc\<close> has three fields and there are
  two partition keys. With \<^verbatim>\<open>force_download\<close> unset the skip check filters neither of
  the two candidates, but the target of the first cannot be named, and the expander
  ends with an \<^verbatim>\<open>IndexError\<close> without a Partition.
\<close>

theorem unnameable_target_counterexample:
  "partition_lists three_field_config
     = Inr ([''year'', ''month''], [(''year'', [''2020'']), (''month'', [''01'', ''02''])],
            [[''2020''], [''01'', ''02'']])
   \<and> prod_list (map length [[''2020''], [''01'', ''02'']]) = 2
   \<and> skip_partition (partition_at three_field_config 0) (holding []) = Inr False
   \<and> skip_partition (partition_at three_field_config 1) (holding []) = Inr False
   \<and> prepare_partition three_field_config (holding []) = ([], Some IndexError)
   \<and> length (yields (fst (prepare_partition three_field_config (holding [])))) = 0"
  by (simp add: three_field_config_def run_defs eval_defs)

subsection \<open>Registration before yielding\<close>

lemma registered_yield:
  "registered st evs \<Longrightarrow> i < length evs \<Longrightarrow> evs ! i = Yield out \<Longrightarrow>
     0 < i \<and> (\<exists>sel location.
        evs ! (i - 1) = Schedule sel location (dict_get (parameters out) ''user_id'' (Str ''unknown''))
        \<and> selection out = Some sel \<and> prepare_target_name out = Inr location)"
proof (induction st evs arbitrary: i rule: registered.induct)
  case (2 st sel location user out' evs)
  show ?case
  proof (cases i)
    case 0
    then show ?thesis using 2 by simp
  next
    case (Suc j)
    show ?thesis
    proof (cases j)
      case 0
      then show ?thesis using 2 Suc by simp
    next
      case (Suc k)
      then have "0 < k \<and> (\<exists>sel location.
        evs ! (k - 1) = Schedule sel location (dict_get (parameters out) ''user_id'' (Str ''unknown''))
        \<and> selection out = Some sel \<and> prepare_target_name out = Inr location)"
        using 2 \<open>i = Suc j\<close> by (intro "2.IH") simp_all
      then show ?thesis using Suc \<open>i = Suc j\<close> by (cases k) auto
    qed
  qed
qed simp_all

lemma registered_schedule:
  "registered st evs \<Longrightarrow> i < length evs \<Longrightarrow> evs ! i = Schedule sel location user \<Longrightarrow>
     Suc i < length evs \<and> (\<exists>out. evs ! Suc i = Yield out \<and> selection out = Some sel
        \<and> prepare_target_name out = Inr location
        \<and> user = dict_get (parameters out) ''user_id'' (Str ''unknown'')
        \<and> skip_partition out st = Inr False)"
proof (induction st evs arbitrary: i rule: registered.induct)
  case (2 st sel' location' user' out' evs)
  show ?case
  proof (cases i)
    case 0
    then show ?thesis using 2 by simp
  next
    case (Suc j)
    show ?thesis
    proof (cases j)
      case 0
      then show ?thesis using 2 Suc by simp
    next
      case (Suc k)
      then have "Suc k < length evs \<and> (\<exists>out. evs ! Suc k = Yield out \<and> selection out = Some sel
        \<and> prepare_target_name out = Inr location
        \<and> user = dict_get (parameters out) ''user_id'' (Str ''unknown'')
        \<and> skip_partition out st = Inr False)"
        using 2 \<open>i = Suc j\<close> by (intro "2.IH") simp_all
      then show ?thesis using Suc \<open>i = Suc j\<close> by simp
    qed
  qed
qed simp_all

text \<open>
  C4. In the events of a run of the expander, every yielded Partition comes right after
  the \<^verbatim>\<open>manifest.schedule\<close> call with its narrowed selection, its target name and its
  user; and every \<^verbatim>\<open>manifest.schedule\<close> call is followed at once by the yield of its
  Partition, which the skip check did not filter: nothing is registered for a
  candidate that is skipped.
\<close>

theorem scheduled_before_yield:
  "(\<forall>i out. i < length (fst (prepare_partition cfg st))
        \<and> fst (prepare_partition cfg st) ! i = Yield out \<longrightarrow>
      0 < i \<and> (\<exists>sel location.
        fst (prepare_partition cfg st) ! (i - 1)
          = Schedule sel location (dict_get (parameters out) ''user_id'' (Str ''unknown''))
        \<and> selection out = Some sel \<and> prepare_target_name out = Inr location))
   \<and> (\<forall>i sel location user. i < length (fst (prepare_partition cfg st))
        \<and> fst (prepare_partition cfg st) ! i = Schedule sel location user \<longrightarrow>
      Suc i < length (fst (prepare_partition cfg st))
      \<and> (\<exists>out. fst (prepare_partition cfg st) ! Suc i = Yield out
        \<and> selection out = Some sel \<and> prepare_target_name out = Inr location
        \<and> user = dict_get (parameters out) ''user_id'' (Str ''unknown'')
        \<and> skip_partition out st = Inr False))"
  using registered_yield [OF registered_prepare_partition [of st cfg]]
    registered_schedule [OF registered_prepare_partition [of st cfg]]
  by blast


lemma unforced_events:
  "prepare_partition unforced_config (holding [''data-2020-01.nc'']) =
    ([Schedule [(''year'', [''2020'']), (''month'', [''02''])] ''data-2020-02.nc'' (Str ''unknown''),
      Yield \<lparr>selection = Some [(''year'', [''2020'']), (''month'', [''02''])],
             parameters = [(''partition_keys'', Lst [''year'', ''month'']),
                    (''target_template'', Str ''data-{}-{}.nc''),
                    (''force_download'', Bool False)]\<rparr>], None)"
  by (simp add: unforced_config_def run_defs eval_defs)

theorem scheduled_before_yield_witness:
  "fst (prepare_partition unforced_config (holding [''data-2020-01.nc''])) ! 1
     = Yield \<lparr>selection = Some [(''year'', [''2020'']), (''month'', [''02''])],
             parameters = [(''partition_keys'', Lst [''year'', ''month'']),
                    (''target_template'', Str ''data-{}-{}.nc''),
                    (''force_download'', Bool False)]\<rparr>
   \<and> (\<exists>sel location.
        fst (prepare_partition unforced_config (holding [''data-2020-01.nc''])) ! (1 - 1)
          = Schedule sel location (Str ''unknown'')
        \<and> sel = [(''year'', [''2020'']), (''month'', [''02''])]
        \<and> location = ''data-2020-02.nc'')
   \<and> skip_partition (partition_at unforced_config 0) (holding [''data-2020-01.nc'']) = Inr True"
proof -
  let ?E = "fst (prepare_partition unforced_config (holding [''data-2020-01.nc'']))"
  let ?out = "\<lparr>selection = Some [(''year'', [''2020'']), (''month'', [''02''])],
             parameters = [(''partition_keys'', Lst [''year'', ''month'']),
                    (''target_template'', Str ''data-{}-{}.nc''),
                    (''force_download'', Bool False)]\<rparr>"
  have y: "1 < length ?E \<and> ?E ! 1 = Yield ?out"
    by (simp add: unforced_events)
  then have "\<exists>sel location.
      ?E ! (1 - 1) = Schedule sel location (dict_get (parameters ?out) ''user_id'' (Str ''unknown''))
      \<and> selection ?out = Some sel \<and> prepare_target_name ?out = Inr location"
    using scheduled_before_yield [of unforced_config "holding [''data-2020-01.nc'']"]
    by blast
  moreover have "prepare_target_name ?out = Inr ''data-2020-02.nc''"
    by (simp add: eval_defs)
  moreover have "skip_partition (partition_at unforced_config 0) (holding [''data-2020-01.nc''])
      = Inr True"
    by (simp add: unforced_config_def run_defs eval_defs)
  ultimately show ?thesis using y by (auto simp: dict_get_def)
qed

subsection \<open>Parameter groups\<close>

lemma parameters_partition_at:
  "partition_lists cfg = Inr (ks, sel, vss) \<Longrightarrow>
     parameters (partition_at cfg i)
       = dict_update (parameters cfg) (params_loop (extra_params (parameters cfg)) i)"
  by (simp add: partition_at_def)

lemma parameters_candidate:
  assumes "i < fan_out_size cfg"
  shows "parameters (partition_at cfg i)
    = dict_update (parameters cfg) (params_loop (extra_params (parameters cfg)) i)"
proof -
  from assms obtain ks sel vss where "partition_lists cfg = Inr (ks, sel, vss)"
    by (cases rule: partition_lists_cases [of cfg "\<lambda>t. None"]) auto
  then show ?thesis by (rule parameters_partition_at)
qed

lemma yields_are_candidates:
  assumes "out \<in> set (yields (fst (prepare_partition cfg st)))"
  shows "\<exists>i<fan_out_size cfg. out = partition_at cfg i"
proof -
  obtain rest where "map (partition_at cfg)
        [i \<leftarrow> [0 ..< fan_out_size cfg]. skip_partition (partition_at cfg i) st = Inr False]
     = yields (fst (prepare_partition cfg st)) @ rest"
    using yields_prepare_partition_prefix by blast
  then have "out \<in> set (map (partition_at cfg)
        [i \<leftarrow> [0 ..< fan_out_size cfg]. skip_partition (partition_at cfg i) st = Inr False])"
    using assms by simp
  then show ?thesis by auto
qed

lemma yielded_position:
  assumes "j < length (yields (fst (prepare_partition cfg st)))"
  shows "j < length [i \<leftarrow> [0 ..< fan_out_size cfg]. skip_partition (partition_at cfg i) st = Inr False]
    \<and> [i \<leftarrow> [0 ..< fan_out_size cfg]. skip_partition (partition_at cfg i) st = Inr False] ! j
        < fan_out_size cfg
    \<and> yields (fst (prepare_partition cfg st)) ! j
        = partition_at cfg
            ([i \<leftarrow> [0 ..< fan_out_size cfg]. skip_partition (partition_at cfg i) st = Inr False] ! j)"
proof -
  let ?kept = "[i \<leftarrow> [0 ..< fan_out_size cfg]. skip_partition (partition_at cfg i) st = Inr False]"
  let ?Y = "yields (fst (prepare_partition cfg st))"
  obtain rest where eq: "map (partition_at cfg) ?kept = ?Y @ rest"
    using yields_prepare_partition_prefix by blast
  then have "length ?kept = length ?Y + length rest"
    by (metis length_append length_map)
  then have j: "j < length ?kept" using assms by simp
  then have "?kept ! j \<in> set ?kept" by (rule nth_mem)
  then have bound: "?kept ! j < fan_out_size cfg" by simp
  have "?Y ! j = (?Y @ rest) ! j" using assms by (simp add: nth_append)
  also have "\<dots> = map (partition_at cfg) ?kept ! j" by (simp only: eq)
  also have "\<dots> = partition_at cfg (?kept ! j)" using j by simp
  finally show ?thesis using j bound by simp
qed

lemma yielded_unfiltered:
  assumes "\<forall>i<fan_out_size cfg. skip_partition (partition_at cfg i) st \<noteq> Inr True"
    and "j < length (yields (fst (prepare_partition cfg st)))"
  shows "j < fan_out_size cfg \<and> yields (fst (prepare_partition cfg st)) ! j = partition_at cfg j"
proof -
  let ?Y = "yields (fst (prepare_partition cfg st))"
  obtain rest where eq: "map (partition_at cfg) [0 ..< fan_out_size cfg] = ?Y @ rest"
    using prepare_partition_unfiltered_prefix [OF assms(1)] by blast
  then have "length [0 ..< fan_out_size cfg] = length ?Y + length rest"
    by (metis length_append length_map)
  then have j: "j < fan_out_size cfg" using assms(2) by simp
  have "?Y ! j = (?Y @ rest) ! j" using assms(2) by (simp add: nth_append)
  also have "\<dots> = map (partition_at cfg) [0 ..< fan_out_size cfg] ! j" by (simp only: eq)
  also have "\<dots> = partition_at cfg j" using j by simp
  finally show ?thesis using j by simp
qed

text \<open>
  C10. The Partitions that the expander yields are the candidates of the product at
  the positions that the skip check does not filter, in order: all of them when the
  expander ends without an exception, and the first of them when it ends with one. The
  candidate at position \<open>i\<close> of the product has the parameter group at position \<open>i\<close> of
  the cycle merged into its parameters, whether or not candidates before it were
  skipped: its parameters are those of the configuration updated with the group, so
  that every binding of the group is a binding of the Partition, and the parameters
  that the group does not bind are those of the configuration.
\<close>

theorem group_by_product_position:
  "(\<exists>rest. map (partition_at cfg)
        [i \<leftarrow> [0 ..< fan_out_size cfg]. skip_partition (partition_at cfg i) st = Inr False]
      = yields (fst (prepare_partition cfg st)) @ rest)
   \<and> (snd (prepare_partition cfg st) = None \<longrightarrow>
        yields (fst (prepare_partition cfg st))
          = map (partition_at cfg)
              [i \<leftarrow> [0 ..< fan_out_size cfg]. skip_partition (partition_at cfg i) st = Inr False])
   \<and> (\<forall>i<fan_out_size cfg.
        parameters (partition_at cfg i)
          = dict_update (parameters cfg)
              (if extra_params (parameters cfg) = [] then []
               else extra_params (parameters cfg) ! (i mod length (extra_params (parameters cfg))))
        \<and> map_of (parameters (partition_at cfg i))
          = map_of (parameters cfg)
              ++ map_of (rev (if extra_params (parameters cfg) = [] then []
                   else extra_params (parameters cfg)
                          ! (i mod length (extra_params (parameters cfg))))))"
proof (intro conjI impI allI)
  show "\<exists>rest. map (partition_at cfg)
        [i \<leftarrow> [0 ..< fan_out_size cfg]. skip_partition (partition_at cfg i) st = Inr False]
      = yields (fst (prepare_partition cfg st)) @ rest"
    by (rule yields_prepare_partition_prefix)
next
  assume "snd (prepare_partition cfg st) = None"
  then show "yields (fst (prepare_partition cfg st))
      = map (partition_at cfg)
          [i \<leftarrow> [0 ..< fan_out_size cfg]. skip_partition (partition_at cfg i) st = Inr False]"
    by (rule yields_prepare_partition)
next
  fix i
  assume i: "i < fan_out_size cfg"
  show merged: "parameters (partition_at cfg i)
      = dict_update (parameters cfg)
          (if extra_params (parameters cfg) = [] then []
           else extra_params (parameters cfg) ! (i mod length (extra_params (parameters cfg))))"
    using parameters_candidate [OF i] by (simp add: params_loop_def)
  show "map_of (parameters (partition_at cfg i))
      = map_of (parameters cfg)
          ++ map_of (rev (if extra_params (parameters cfg) = [] then []
               else extra_params (parameters cfg)
                      ! (i mod length (extra_params (parameters cfg)))))"
    unfolding merged by (rule map_of_dict_update)
qed

lemma two_group_events:
  "prepare_partition two_group_config (holding [''data-2020-01.nc'']) =
    ([Schedule [(''year'', [''2020'']), (''month'', [''02''])] ''data-2020-02.nc'' (Str ''unknown''),
      Yield \<lparr>selection = Some [(''year'', [''2020'']), (''month'', [''02''])],
             parameters = [(''partition_keys'', Lst [''year'', ''month'']),
                    (''target_template'', Str ''data-{}-{}.nc''),
                    (''force_download'', Bool False),
                    (''a'', Dict [(''api_key'', Str ''A'')]),
                    (''b'', Dict [(''api_key'', Str ''B'')]),
                    (''api_key'', Str ''B'')]\<rparr>], None)"
  by (simp add: two_group_config_def unforced_config_def run_defs eval_defs)

lemma two_group_lists:
  "partition_lists two_group_config
     = Inr ([''year'', ''month''], [(''year'', [''2020'']), (''month'', [''01'', ''02''])],
            [[''2020''], [''01'', ''02'']])"
  by (simp add: two_group_config_def unforced_config_def run_defs eval_defs)

theorem group_by_product_position_witness:
  "skip_partition (partition_at two_group_config 0) (holding [''data-2020-01.nc'']) = Inr True
   \<and> yields (fst (prepare_partition two_group_config (holding [''data-2020-01.nc''])))
       = [partition_at two_group_config 1]
   \<and> extra_params (parameters two_group_config)
       = [[(''api_key'', Str ''A'')], [(''api_key'', Str ''B'')]]
   \<and> parameters (partition_at two_group_config 1)
       = dict_update (parameters two_group_config) [(''api_key'', Str ''B'')]
   \<and> map_of (parameters two_group_config) ''api_key'' = None
   \<and> map (\<lambda>out. map_of (parameters out) ''api_key'')
        (yields (fst (prepare_partition two_group_config (holding [''data-2020-01.nc'']))))
       = [Some (Str ''B'')]"
proof -
  let ?S = "holding [''data-2020-01.nc'']"
  have size: "fan_out_size two_group_config = 2"
    by (simp add: fan_out_size_eq [OF two_group_lists])
  have s0: "skip_partition (partition_at two_group_config 0) ?S = Inr True"
    by (simp add: two_group_config_def unforced_config_def run_defs eval_defs)
  have s1: "skip_partition (partition_at two_group_config 1) ?S = Inr False"
    by (simp add: two_group_config_def unforced_config_def run_defs eval_defs)
  have kept: "[i \<leftarrow> [0 ..< fan_out_size two_group_config].
      skip_partition (partition_at two_group_config i) ?S = Inr False] = [1]"
    unfolding size using s0 s1 by (simp add: numeral_2_eq_2 upt_rec)
  have groups: "extra_params (parameters two_group_config)
      = [[(''api_key'', Str ''A'')], [(''api_key'', Str ''B'')]]"
    by (simp add: two_group_config_def unforced_config_def eval_defs)
  have none: "map_of (parameters two_group_config) ''api_key'' = None"
    by (simp add: two_group_config_def unforced_config_def eval_defs map_of_dict_setitem)
  have ended: "snd (prepare_partition two_group_config ?S) = None"
    by (simp add: two_group_events)
  have "1 < fan_out_size two_group_config" by (simp add: size)
  with group_by_product_position [of two_group_config ?S] ended
  have "yields (fst (prepare_partition two_group_config ?S))
        = map (partition_at two_group_config)
            [i \<leftarrow> [0 ..< fan_out_size two_group_config].
               skip_partition (partition_at two_group_config i) ?S = Inr False]"
    and "parameters (partition_at two_group_config 1)
        = dict_update (parameters two_group_config)
            (if extra_params (parameters two_group_config) = [] then []
             else extra_params (parameters two_group_config)
                    ! (1 mod length (extra_params (parameters two_group_config))))"
    and "map_of (parameters (partition_at two_group_config 1))
        = map_of (parameters two_group_config)
            ++ map_of (rev (if extra_params (parameters two_group_config) = [] then []
             else extra_params (parameters two_group_config)
                    ! (1 mod length (extra_params (parameters two_group_config)))))"
    by blast+
  then show ?thesis using s0 kept groups none by simp
qed

lemma three_group_keys:
  "map (\<lambda>out. map_of (parameters out) ''api_key'')
     (yields (fst (prepare_partition three_group_config (holding []))))
   = [Some (Str ''A''), Some (Str ''B''), Some (Str ''C''), Some (Str ''A''), Some (Str ''B'')]"
  by (simp add: three_group_config_def run_defs eval_defs)

text \<open>
  C5 (amended). Let the parameters have the groups \<open>g\<^sub>0, \<dots>, g\<^bsub>n-1\<^esub>\<close>, in the order of
  the section. When the skip check filters no candidate, the Partition emitted at
  position \<open>j\<close> has the group at position \<open>j mod n\<close> merged: the first group goes to the
  first emitted Partition, the second to the second, and so on, starting again with
  the first group after the last. In general the Partition emitted at position \<open>j\<close> is
  the candidate at the \<open>j\<close>-th position of the product that is not skipped, and it has
  the group of that position of the product. Merging a group makes each of its
  bindings a binding of the Partition and keeps the other parameters of the
  configuration. When there is no group, the parameters of every Partition that is
  emitted are those of the configuration. With the three groups \<^verbatim>\<open>a\<close>, \<^verbatim>\<open>b\<close>, \<^verbatim>\<open>c\<close>
  and five Partitions, the API keys are those of \<^verbatim>\<open>a\<close>, \<^verbatim>\<open>b\<close>, \<^verbatim>\<open>c\<close>, \<^verbatim>\<open>a\<close>, \<^verbatim>\<open>b\<close>.
\<close>

theorem round_robin_groups:
  "(extra_params (parameters cfg) \<noteq> [] \<longrightarrow>
      ((\<forall>i<fan_out_size cfg. skip_partition (partition_at cfg i) st \<noteq> Inr True) \<longrightarrow>
         (\<forall>j<length (yields (fst (prepare_partition cfg st))).
            parameters (yields (fst (prepare_partition cfg st)) ! j)
              = dict_update (parameters cfg)
                  (extra_params (parameters cfg) ! (j mod length (extra_params (parameters cfg))))
            \<and> map_of (parameters (yields (fst (prepare_partition cfg st)) ! j))
              = map_of (parameters cfg)
                  ++ map_of (rev (extra_params (parameters cfg)
                       ! (j mod length (extra_params (parameters cfg)))))))
      \<and> (\<forall>j<length (yields (fst (prepare_partition cfg st))).
            j < length [i \<leftarrow> [0 ..< fan_out_size cfg].
                         skip_partition (partition_at cfg i) st = Inr False]
            \<and> parameters (yields (fst (prepare_partition cfg st)) ! j)
              = dict_update (parameters cfg)
                  (extra_params (parameters cfg)
                     ! (([i \<leftarrow> [0 ..< fan_out_size cfg].
                            skip_partition (partition_at cfg i) st = Inr False] ! j)
                        mod length (extra_params (parameters cfg))))
            \<and> map_of (parameters (yields (fst (prepare_partition cfg st)) ! j))
              = map_of (parameters cfg)
                  ++ map_of (rev (extra_params (parameters cfg)
                       ! (([i \<leftarrow> [0 ..< fan_out_size cfg].
                              skip_partition (partition_at cfg i) st = Inr False] ! j)
                          mod length (extra_params (parameters cfg)))))))
   \<and> (extra_params (parameters cfg) = [] \<longrightarrow>
        (\<forall>out \<in> set (yields (fst (prepare_partition cfg st))). parameters out = parameters cfg))
   \<and> map (\<lambda>out. map_of (parameters out) ''api_key'')
        (yields (fst (prepare_partition three_group_config (holding []))))
      = [Some (Str ''A''), Some (Str ''B''), Some (Str ''C''), Some (Str ''A''), Some (Str ''B'')]"
proof (intro conjI impI allI ballI)
  let ?Y = "yields (fst (prepare_partition cfg st))"
  let ?extra = "extra_params (parameters cfg)"
  let ?kept = "[i \<leftarrow> [0 ..< fan_out_size cfg]. skip_partition (partition_at cfg i) st = Inr False]"
  {
    fix j
    assume groups: "?extra \<noteq> []"
      and unfiltered: "\<forall>i<fan_out_size cfg. skip_partition (partition_at cfg i) st \<noteq> Inr True"
      and j: "j < length ?Y"
    from yielded_unfiltered [OF unfiltered j]
    have "j < fan_out_size cfg" and "?Y ! j = partition_at cfg j" by simp_all
    then show merged: "parameters (?Y ! j) = dict_update (parameters cfg) (?extra ! (j mod length ?extra))"
      using groups by (simp add: parameters_candidate params_loop_def)
    show "map_of (parameters (?Y ! j))
        = map_of (parameters cfg) ++ map_of (rev (?extra ! (j mod length ?extra)))"
      unfolding merged by (rule map_of_dict_update)
  }
  {
    fix j
    assume groups: "?extra \<noteq> []" and j: "j < length ?Y"
    from yielded_position [OF j]
    have pos: "j < length ?kept" "?kept ! j < fan_out_size cfg"
      "?Y ! j = partition_at cfg (?kept ! j)"
      by simp_all
    show "j < length ?kept" by (rule pos(1))
    have "parameters (partition_at cfg (?kept ! j))
        = dict_update (parameters cfg) (?extra ! ((?kept ! j) mod length ?extra))"
      using groups parameters_candidate [OF pos(2)] by (simp add: params_loop_def)
    then show merged: "parameters (?Y ! j)
        = dict_update (parameters cfg) (?extra ! ((?kept ! j) mod length ?extra))"
      by (simp only: pos(3))
    show "map_of (parameters (?Y ! j))
        = map_of (parameters cfg) ++ map_of (rev (?extra ! ((?kept ! j) mod length ?extra)))"
      unfolding merged by (rule map_of_dict_update)
  }
  {
    fix out
    assume none: "?extra = []" and "out \<in> set ?Y"
    then obtain i where i: "i < fan_out_size cfg" "out = partition_at cfg i"
      using yields_are_candidates by blast
    then show "parameters out = parameters cfg"
      using none by (simp add: parameters_candidate params_loop_def)
  }
  show "map (\<lambda>out. map_of (parameters out) ''api_key'')
        (yields (fst (prepare_partition three_group_config (holding []))))
      = [Some (Str ''A''), Some (Str ''B''), Some (Str ''C''), Some (Str ''A''), Some (Str ''B'')]"
    by (rule three_group_keys)
qed

lemma three_group_lists:
  "partition_lists three_group_config
     = Inr ([''year'', ''month''],
            [(''year'', [''2020'']), (''month'', [''01'', ''02'', ''03'', ''04'', ''05''])],
            [[''2020''], [''01'', ''02'', ''03'', ''04'', ''05'']])"
  by (simp add: three_group_config_def run_defs eval_defs)

lemma three_group_extra:
  "extra_params (parameters three_group_config)
     = [[(''api_key'', Str ''A'')], [(''api_key'', Str ''B'')], [(''api_key'', Str ''C'')]]"
  by (simp add: three_group_config_def)

theorem round_robin_groups_witness:
  "length (yields (fst (prepare_partition three_group_config (holding [])))) = 5
   \<and> map_of (parameters (yields (fst (prepare_partition three_group_config (holding []))) ! 0))
        ''api_key'' = Some (Str ''A'')
   \<and> map_of (parameters (yields (fst (prepare_partition three_group_config (holding []))) ! 1))
        ''api_key'' = Some (Str ''B'')
   \<and> map_of (parameters (yields (fst (prepare_partition three_group_config (holding []))) ! 2))
        ''api_key'' = Some (Str ''C'')
   \<and> map_of (parameters (yields (fst (prepare_partition three_group_config (holding []))) ! 3))
        ''api_key'' = Some (Str ''A'')
   \<and> map_of (parameters (yields (fst (prepare_partition three_group_config (holding []))) ! 4))
        ''api_key'' = Some (Str ''B'')
   \<and> skip_partition (partition_at two_group_config 0) (holding [''data-2020-01.nc'']) = Inr True
   \<and> map_of (parameters
          (yields (fst (prepare_partition two_group_config (holding [''data-2020-01.nc'']))) ! 0))
        ''api_key'' = Some (Str ''B'')
   \<and> parameters (yields (fst (prepare_partition scenario_config (holding []))) ! 0)
       = parameters scenario_config"
proof -
  let ?Y = "yields (fst (prepare_partition three_group_config (holding [])))"
  have size: "fan_out_size three_group_config = 5"
    by (simp add: fan_out_size_eq [OF three_group_lists])
  have len: "length ?Y = 5"
    using arg_cong [OF three_group_keys, of length] by simp
  have five: "i = 0 \<or> i = 1 \<or> i = 2 \<or> i = 3 \<or> i = 4" if "i < 5" for i :: nat
    using that by arith
  have "skip_partition (partition_at three_group_config i) (holding []) \<noteq> Inr True"
    if "i < 5" for i
    using five [OF that]
    by (elim disjE) (simp_all add: three_group_config_def run_defs eval_defs)
  then have unfiltered: "\<forall>i<fan_out_size three_group_config.
      skip_partition (partition_at three_group_config i) (holding []) \<noteq> Inr True"
    by (simp add: size)
  have groups: "extra_params (parameters three_group_config) \<noteq> []"
    by (simp add: three_group_extra)
  from round_robin_groups [of three_group_config "holding []"] groups unfiltered
  have each: "\<forall>j<length ?Y.
      map_of (parameters (?Y ! j))
        = map_of (parameters three_group_config)
            ++ map_of (rev (extra_params (parameters three_group_config)
                 ! (j mod length (extra_params (parameters three_group_config)))))"
    by blast
  have "(0::nat) < 5" "(1::nat) < 5" "(2::nat) < 5" "(3::nat) < 5" "(4::nat) < 5" by simp_all
  then have three: "map_of (parameters (?Y ! 0)) ''api_key'' = Some (Str ''A'')
      \<and> map_of (parameters (?Y ! 1)) ''api_key'' = Some (Str ''B'')
      \<and> map_of (parameters (?Y ! 2)) ''api_key'' = Some (Str ''C'')
      \<and> map_of (parameters (?Y ! 3)) ''api_key'' = Some (Str ''A'')
      \<and> map_of (parameters (?Y ! 4)) ''api_key'' = Some (Str ''B'')"
    using each unfolding len three_group_extra by simp
  let ?S = "holding [''data-2020-01.nc'']"
  let ?Z = "yields (fst (prepare_partition two_group_config ?S))"
  have two: "fan_out_size two_group_config = 2"
    by (simp add: fan_out_size_eq [OF two_group_lists])
  have s0: "skip_partition (partition_at two_group_config 0) ?S = Inr True"
    by (simp add: two_group_config_def unforced_config_def run_defs eval_defs)
  have s1: "skip_partition (partition_at two_group_config 1) ?S = Inr False"
    by (simp add: two_group_config_def unforced_config_def run_defs eval_defs)
  have kept: "[i \<leftarrow> [0 ..< fan_out_size two_group_config].
      skip_partition (partition_at two_group_config i) ?S = Inr False] = [1]"
    unfolding two using s0 s1 by (simp add: numeral_2_eq_2 upt_rec)
  have extra: "extra_params (parameters two_group_config)
      = [[(''api_key'', Str ''A'')], [(''api_key'', Str ''B'')]]"
    by (simp add: two_group_config_def unforced_config_def eval_defs)
  have "0 < length ?Z" by (simp add: two_group_events)
  moreover have "extra_params (parameters two_group_config) \<noteq> []" by (simp add: extra)
  ultimately have "map_of (parameters (?Z ! 0))
      = map_of (parameters two_group_config)
          ++ map_of (rev (extra_params (parameters two_group_config)
               ! (([i \<leftarrow> [0 ..< fan_out_size two_group_config].
                      skip_partition (partition_at two_group_config i) ?S = Inr False] ! 0)
                  mod length (extra_params (parameters two_group_config)))))"
    using round_robin_groups [of two_group_config ?S] by blast
  then have skipped: "map_of (parameters (?Z ! 0)) ''api_key'' = Some (Str ''B'')"
    unfolding kept extra by simp
  have "extra_params (parameters scenario_config) = []"
    by (simp add: scenario_config_def)
  moreover have "yields (fst (prepare_partition scenario_config (holding []))) ! 0
      \<in> set (yields (fst (prepare_partition scenario_config (holding []))))"
    by (simp add: scenario_events)
  ultimately have "parameters (yields (fst (prepare_partition scenario_config (holding []))) ! 0)
      = parameters scenario_config"
    using round_robin_groups [of scenario_config "holding []"] by blast
  with len three s0 skipped show ?thesis by simp
qed

text \<open>
  C5 as stated fails: when the first candidate is skipped, the first Partition that is
  emitted has the second parameter group merged, not the first.
\<close>

theorem first_emitted_group_counterexample:
  "extra_params (parameters two_group_config)
     = [[(''api_key'', Str ''A'')], [(''api_key'', Str ''B'')]]
   \<and> length (yields (fst (prepare_partition two_group_config (holding [''data-2020-01.nc''])))) = 1
   \<and> parameters (yields (fst (prepare_partition two_group_config (holding [''data-2020-01.nc'']))) ! 0)
       = dict_update (parameters two_group_config) [(''api_key'', Str ''B'')]
   \<and> parameters (yields (fst (prepare_partition two_group_config (holding [''data-2020-01.nc'']))) ! 0)
       \<noteq> dict_update (parameters two_group_config) [(''api_key'', Str ''A'')]
   \<and> map_of (parameters
          (yields (fst (prepare_partition two_group_config (holding [''data-2020-01.nc'']))) ! 0))
        ''api_key'' = Some (Str ''B'')"
  by (simp add: two_group_events) (simp add: two_group_config_def unforced_config_def eval_defs)

subsection \<open>The order of the Partitions\<close>

lemma div_of_mod: "(i mod (q * k)) div q = (i div q) mod (k::nat)"
  by (cases "q = 0") (simp_all add: mod_mult2_eq)

lemma odometer_digit: "((i mod (a * (n * q))) div q) mod n = (i div q) mod (n::nat)"
proof -
  have "(i mod (q * (n * a))) div q = (i div q) mod (n * a)" by (rule div_of_mod)
  then have "((i mod (a * (n * q))) div q) mod n = ((i div q) mod (n * a)) mod n"
    by (simp add: mult.commute mult.left_commute)
  also have "\<dots> = (i div q) mod n" by (simp add: mod_mod_cancel)
  finally show ?thesis .
qed

lemma concat_map_nth:
  assumes "\<forall>x\<in>set xs. length (f x) = n" and "i < length xs * n"
  shows "concat (map f xs) ! i = f (xs ! (i div n)) ! (i mod n)"
  using assms
proof (induction xs arbitrary: i)
  case Nil
  then show ?case by simp
next
  case (Cons x xs)
  show ?case
  proof (cases "i < n")
    case True
    then show ?thesis using Cons.prems by (simp add: nth_append)
  next
    case False
    then have "i - n < length xs * n" using Cons.prems by simp
    then have "concat (map f xs) ! (i - n) = f (xs ! ((i - n) div n)) ! ((i - n) mod n)"
      using Cons by simp
    moreover have "0 < n" using Cons.prems(2) by (cases n) auto
    moreover have "n \<le> i" using False by simp
    ultimately show ?thesis using False Cons.prems
      by (simp add: nth_append le_div_geq le_mod_geq)
  qed
qed


lemma prod_list_split:
  "k < length ns \<Longrightarrow>
     prod_list ns = prod_list (take k ns) * (ns ! k * prod_list (drop (Suc k) ns))"
  for ns :: "nat list"
proof -
  assume "k < length ns"
  then have "ns = take k ns @ ns ! k # drop (Suc k) ns" by (rule id_take_nth_drop)
  then have "prod_list ns = prod_list (take k ns @ ns ! k # drop (Suc k) ns)" by simp
  then show ?thesis by simp
qed

lemma itertools_product_nth:
  "i < length (itertools_product vss) \<Longrightarrow> k < length vss \<Longrightarrow>
     itertools_product vss ! i ! k
       = vss ! k ! ((i div prod_list (map length (drop (Suc k) vss))) mod length (vss ! k))"
proof (induction vss arbitrary: i k)
  case Nil
  then show ?case by simp
next
  case (Cons xs xss)
  let ?P = "itertools_product xss"
  let ?p = "length ?P"
  have i: "i < length xs * ?p"
    using Cons.prems(1) by (simp add: length_concat comp_def sum_list_triv)
  then have p: "0 < ?p" by (cases "?p") auto
  have row: "i div ?p < length xs"
    using i by (simp add: less_mult_imp_div_less)
  have col: "i mod ?p < ?p" using p by simp
  have "itertools_product (xs # xss) ! i
      = map ((#) (xs ! (i div ?p))) ?P ! (i mod ?p)"
    using concat_map_nth [of xs "\<lambda>x. map ((#) x) ?P" ?p i] i by simp
  then have nth: "itertools_product (xs # xss) ! i = xs ! (i div ?p) # ?P ! (i mod ?p)"
    using col by simp
  show ?case
  proof (cases k)
    case 0
    then show ?thesis using nth row by (simp add: length_itertools_product)
  next
    case (Suc k')
    then have k': "k' < length xss" using Cons.prems(2) by simp
    let ?q = "prod_list (map length (drop (Suc k') xss))"
    let ?n = "length (xss ! k')"
    have "?P ! (i mod ?p) ! k' = xss ! k' ! (((i mod ?p) div ?q) mod ?n)"
      using Cons.IH [OF col k'] by (simp add: drop_map)
    moreover have "?p = prod_list (take k' (map length xss)) * (?n * ?q)"
      using prod_list_split [of k' "map length xss"] k'
      by (simp add: length_itertools_product drop_map)
    then have "((i mod ?p) div ?q) mod ?n = (i div ?q) mod ?n"
      by (simp add: odometer_digit)
    ultimately show ?thesis using nth Suc by simp
  qed
qed


text \<open>
  C6. The combinations of the product are in odometer order: coordinate \<open>k\<close> of the
  combination at position \<open>i\<close> is the value at position
  \<open>(i div (n\<^bsub>k+1\<^esub> \<dots> n\<^bsub>m\<^esub>)) mod n\<^bsub>k\<^esub>\<close> of the value sequence of key \<open>k\<close>, so the
  first key varies slowest. The expander yields its Partitions in this order: their
  selections are the selection narrowed to the combinations at the positions that are
  not skipped, in increasing order. For the scenario of the specification it yields two
  Partitions, with the targets \<^verbatim>\<open>data-2020-01.nc\<close> and \<^verbatim>\<open>data-2020-02.nc\<close>, in this order.
\<close>

theorem odometer_order:
  "(\<forall>i k. i < length (itertools_product vss) \<and> k < length vss \<longrightarrow>
      itertools_product vss ! i ! k
        = vss ! k ! ((i div prod_list (map length (drop (Suc k) vss))) mod length (vss ! k)))
   \<and> (partition_lists cfg = Inr (ks, sel, vss) \<and> snd (prepare_partition cfg st) = None \<longrightarrow>
        map selection (yields (fst (prepare_partition cfg st)))
          = map (\<lambda>i. Some (narrow sel ks (itertools_product vss ! i)))
              [i \<leftarrow> [0 ..< length (itertools_product vss)].
                 skip_partition (partition_at cfg i) st = Inr False])
   \<and> snd (prepare_partition scenario_config (holding [])) = None
   \<and> length (yields (fst (prepare_partition scenario_config (holding [])))) = 2
   \<and> map prepare_target_name (yields (fst (prepare_partition scenario_config (holding []))))
       = [Inr ''data-2020-01.nc'', Inr ''data-2020-02.nc'']"
proof (intro conjI impI allI)
  fix i k
  assume "i < length (itertools_product vss) \<and> k < length vss"
  then show "itertools_product vss ! i ! k
      = vss ! k ! ((i div prod_list (map length (drop (Suc k) vss))) mod length (vss ! k))"
    by (simp add: itertools_product_nth)
next
  assume a: "partition_lists cfg = Inr (ks, sel, vss) \<and> snd (prepare_partition cfg st) = None"
  then have "yields (fst (prepare_partition cfg st))
      = map (partition_at cfg)
          [i \<leftarrow> [0 ..< fan_out_size cfg]. skip_partition (partition_at cfg i) st = Inr False]"
    by (simp add: yields_prepare_partition)
  then show "map selection (yields (fst (prepare_partition cfg st)))
      = map (\<lambda>i. Some (narrow sel ks (itertools_product vss ! i)))
          [i \<leftarrow> [0 ..< length (itertools_product vss)].
             skip_partition (partition_at cfg i) st = Inr False]"
    using a by (simp add: fan_out_size_def) (simp add: partition_at_def)
next
  show "map prepare_target_name (yields (fst (prepare_partition scenario_config (holding []))))
      = [Inr ''data-2020-01.nc'', Inr ''data-2020-02.nc'']"
    unfolding scenario_events by (simp add: eval_defs)
qed (simp_all add: scenario_events)

theorem odometer_order_witness:
  "itertools_product [[''2020''], [''01'', ''02'']] ! 0 = [''2020'', ''01'']
   \<and> itertools_product [[''2020''], [''01'', ''02'']] ! 1 ! 0 = ''2020''
   \<and> itertools_product [[''2020''], [''01'', ''02'']] ! 1 ! 1 = ''02''
   \<and> map selection (yields (fst (prepare_partition scenario_config (holding []))))
       = [Some [(''year'', [''2020'']), (''month'', [''01''])],
          Some [(''year'', [''2020'']), (''month'', [''02''])]]"
proof -
  let ?vss = "[[''2020''], [''01'', ''02'']]"
  note order = odometer_order [of ?vss scenario_config "[''year'', ''month'']"
      "[(''year'', [''2020'']), (''month'', [''01'', ''02''])]" "holding []"]
  have len: "length (itertools_product ?vss) = 2" by simp
  have "(1::nat) < length (itertools_product ?vss) \<and> (0::nat) < length ?vss"
    and "(1::nat) < length (itertools_product ?vss) \<and> (1::nat) < length ?vss"
    by simp_all
  with order have "itertools_product ?vss ! 1 ! 0
        = ?vss ! 0 ! ((1 div prod_list (map length (drop (Suc 0) ?vss))) mod length (?vss ! 0))"
    and "itertools_product ?vss ! 1 ! 1
        = ?vss ! 1 ! ((1 div prod_list (map length (drop (Suc 1) ?vss))) mod length (?vss ! 1))"
    by blast+
  moreover have "partition_lists scenario_config
        = Inr ([''year'', ''month''], [(''year'', [''2020'']), (''month'', [''01'', ''02''])], ?vss)
      \<and> snd (prepare_partition scenario_config (holding [])) = None"
    by (simp add: scenario_lists scenario_events)
  with order have "map selection (yields (fst (prepare_partition scenario_config (holding []))))
      = map (\<lambda>i. Some (narrow [(''year'', [''2020'']), (''month'', [''01'', ''02''])]
                [''year'', ''month''] (itertools_product ?vss ! i)))
          [i \<leftarrow> [0 ..< length (itertools_product ?vss)].
             skip_partition (partition_at scenario_config i) (holding []) = Inr False]"
    by blast
  ultimately show ?thesis by (simp add: scenario_events)
qed

subsection \<open>The target namer\<close>

lemma digit_val_digit_char: "d < 10 \<Longrightarrow> digit_val (digit_char d) = Some d"
proof -
  assume "d < 10"
  then have "d \<in> {0, 1, 2, 3, 4, 5, 6, 7, 8, 9}" by auto
  then show ?thesis by (auto simp: digit_val_def digit_char_def)
qed

lemma digit_char_in: "d < 10 \<Longrightarrow> digit_char d \<in> set ''0123456789''"
  unfolding digit_char_def by (rule nth_mem) simp

lemma get_integer_append:
  "get_integer acc (s @ [c]) =
     (case get_integer acc s of
        None \<Rightarrow> None
      | Some a \<Rightarrow> (case digit_val c of None \<Rightarrow> None | Some d \<Rightarrow> Some (a * 10 + d)))"
  by (induction s arbitrary: acc) (auto split: option.splits)

lemma get_integer_decimal: "get_integer 0 (decimal n) = Some n"
proof (induction n rule: decimal.induct)
  case (1 n)
  show ?case
  proof (cases "n < 10")
    case True
    then show ?thesis by (subst decimal.simps) (simp add: digit_val_digit_char)
  next
    case False
    then show ?thesis
      using 1 by (subst decimal.simps) (simp add: get_integer_append digit_val_digit_char)
  qed
qed

lemma set_decimal: "set (decimal n) \<subseteq> set ''0123456789''"
proof (induction n rule: decimal.induct)
  case (1 n)
  show ?case
  proof (cases "n < 10")
    case True
    then show ?thesis using digit_char_in [of n] by (subst decimal.simps) simp
  next
    case False
    then show ?thesis
      using 1 digit_char_in [of "n mod 10"] by (subst decimal.simps) simp
  qed
qed

lemma decimal_not_Nil: "decimal n \<noteq> []"
  by (subst decimal.simps) simp

lemma split_field_append:
  "CHR ''}'' \<notin> set s \<Longrightarrow> split_field (s @ CHR ''}'' # rest) = Some (s, rest)"
  by (induction s) auto


lemma emit_emit: "emit s (emit t r) = emit (s @ t) r"
  by (cases r) (simp_all add: emit_def)

lemma emit_Nil: "emit [] r = r"
  by (cases r) (simp_all add: emit_def)

lemma emit_Inl: "emit s (Inl e) = Inl e"
  by (simp add: emit_def)

lemma emit_Inr: "emit s (Inr t) = Inr (s @ t)"
  by (simp add: emit_def)

lemma vformat_char:
  "c \<noteq> CHR ''{'' \<Longrightarrow> c \<noteq> CHR ''}'' \<Longrightarrow>
     vformat st args (c # cs) = emit [c] (vformat st args cs)"
  by simp

lemma vformat_open_open:
  "vformat st args (CHR ''{'' # CHR ''{'' # cs) = emit ''{'' (vformat st args cs)"
  by simp

lemma vformat_close_close:
  "vformat st args (CHR ''}'' # CHR ''}'' # cs) = emit ''}'' (vformat st args cs)"
  by simp

lemma vformat_auto_field:
  "vformat st args (CHR ''{'' # CHR ''}'' # cs) =
     (case st of
        ANS_MANUAL \<Rightarrow> Inl ValueError
      | ANS_INIT \<Rightarrow>
          if 0 < length args then emit (args ! 0) (vformat (ANS_AUTO 1) args cs)
          else Inl IndexError
      | ANS_AUTO n \<Rightarrow>
          if n < length args then emit (args ! n) (vformat (ANS_AUTO (Suc n)) args cs)
          else Inl IndexError)"
  by (simp add: outside_fragment_def)

lemma vformat_named_field:
  assumes "name \<noteq> []" and "\<not> outside_fragment name" and "CHR ''}'' \<notin> set name"
  shows "vformat st args (CHR ''{'' # name @ CHR ''}'' # rest) =
     (case get_integer 0 name of
        None \<Rightarrow> Inl (KeyError name)
      | Some i \<Rightarrow>
          if PY_SSIZE_T_MAX < i then Inl ValueError
          else
            (case st of
               ANS_AUTO n \<Rightarrow> Inl ValueError
             | _ \<Rightarrow>
                 if i < length args then emit (args ! i) (vformat ANS_MANUAL args rest)
                 else Inl IndexError))"
proof -
  obtain d ds where n: "name = d # ds" using assms(1) by (cases name) auto
  have d: "d \<noteq> CHR ''{''" using assms(2) n by (auto simp: outside_fragment_def)
  have s: "split_field (d # ds @ CHR ''}'' # rest) = Some (d # ds, rest)"
    using split_field_append [OF assms(3), of rest] n by simp
  show ?thesis
    unfolding n using d s assms(2) [unfolded n]
    by (simp del: split_field.simps)
qed

lemma outside_fragment_decimal: "\<not> outside_fragment (decimal i)"
  using set_decimal [of i] by (auto simp: outside_fragment_def)

lemma close_not_in_decimal: "CHR ''}'' \<notin> set (decimal i)"
  using set_decimal [of i] by auto

lemma vformat_index_field:
  "vformat st args (CHR ''{'' # decimal i @ CHR ''}'' # rest) =
     (if PY_SSIZE_T_MAX < i then Inl ValueError
      else
        (case st of
           ANS_AUTO n \<Rightarrow> Inl ValueError
         | _ \<Rightarrow>
             if i < length args then emit (args ! i) (vformat ANS_MANUAL args rest)
             else Inl IndexError))"
  by (simp add: vformat_named_field [OF decimal_not_Nil outside_fragment_decimal close_not_in_decimal]
      get_integer_decimal del: vformat.simps)

lemma vformat_name_field:
  "field_name s \<Longrightarrow> vformat st args (CHR ''{'' # s @ CHR ''}'' # rest) = Inl (KeyError s)"
  by (simp add: field_name_def vformat_named_field del: vformat.simps)

lemma vformat_escape:
  "vformat st args (escape s @ rest) = emit s (vformat st args rest)"
proof (induction s)
  case Nil
  then show ?case by (simp add: escape_def emit_Nil)
next
  case (Cons c s)
  have step: "escape (c # s) @ rest
      = (if c = CHR ''{'' then ''{{'' else if c = CHR ''}'' then ''}}'' else [c])
          @ (escape s @ rest)"
    by (simp add: escape_def)
  show ?case
    unfolding step using Cons.IH
    by (simp add: emit_emit del: vformat.simps
        add: vformat_char vformat_open_open vformat_close_close)
qed


lemma vformat_automatic:
  "positions ps = [] \<Longrightarrow> names ps = [] \<Longrightarrow> st \<noteq> ANS_MANUAL \<Longrightarrow>
   an_field_number st \<le> length args \<Longrightarrow>
     vformat st args (template_of ps)
       = (if an_field_number st + field_count ps \<le> length args
          then Inr (fill (an_field_number st) ps args) else Inl IndexError)"
proof (induction ps arbitrary: st)
  case Nil
  then show ?case by simp
next
  case (Cons p ps)
  show ?case
  proof (cases p)
    case (Literal s)
    then show ?thesis
      using Cons.IH [of st] Cons.prems
      by (simp add: vformat_escape emit_Inl emit_Inr del: vformat.simps)
  next
    case Field
    have rest: "positions ps = []" "names ps = []" using Cons.prems Field by simp_all
    have tmpl: "template_of (p # ps) = CHR ''{'' # CHR ''}'' # template_of ps"
      using Field by simp
    show ?thesis
    proof (cases st)
      case ANS_INIT
      show ?thesis
      proof (cases "0 < length args")
        case True
        then have "Suc 0 \<le> length args" by (cases args) simp_all
        then have "vformat (ANS_AUTO 1) args (template_of ps)
            = (if 1 + field_count ps \<le> length args then Inr (fill 1 ps args)
               else Inl IndexError)"
          using Cons.IH [of "ANS_AUTO 1"] rest by simp
        then show ?thesis
          unfolding tmpl vformat_auto_field using ANS_INIT Field True
          by (simp add: emit_Inl emit_Inr del: vformat.simps)
      next
        case False
        then show ?thesis
          unfolding tmpl vformat_auto_field using ANS_INIT Field by simp
      qed
    next
      case (ANS_AUTO n)
      show ?thesis
      proof (cases "n < length args")
        case True
        then have "vformat (ANS_AUTO (Suc n)) args (template_of ps)
            = (if Suc n + field_count ps \<le> length args then Inr (fill (Suc n) ps args)
               else Inl IndexError)"
          using Cons.IH [of "ANS_AUTO (Suc n)"] rest by simp
        then show ?thesis
          unfolding tmpl vformat_auto_field using ANS_AUTO Field True
          by (simp add: emit_Inl emit_Inr del: vformat.simps)
      next
        case False
        then show ?thesis
          unfolding tmpl vformat_auto_field using ANS_AUTO Field by simp
      qed
    next
      case ANS_MANUAL
      then show ?thesis using Cons.prems by simp
    qed
  next
    case (Index i)
    then show ?thesis using Cons.prems by simp
  next
    case (Name s)
    then show ?thesis using Cons.prems by simp
  qed
qed

lemma vformat_manual:
  "field_count ps = 0 \<Longrightarrow> names ps = [] \<Longrightarrow> st = ANS_INIT \<or> st = ANS_MANUAL \<Longrightarrow>
   \<forall>i\<in>set (positions ps). i \<le> PY_SSIZE_T_MAX \<Longrightarrow>
     vformat st args (template_of ps)
       = (if \<forall>i\<in>set (positions ps). i < length args
          then Inr (fill 0 ps args) else Inl IndexError)"
proof (induction ps arbitrary: st)
  case Nil
  then show ?case by simp
next
  case (Cons p ps)
  show ?case
  proof (cases p)
    case (Literal s)
    then show ?thesis
      using Cons.IH [of st] Cons.prems
      by (simp add: vformat_escape emit_Inl emit_Inr del: vformat.simps)
  next
    case Field
    then show ?thesis using Cons.prems by simp
  next
    case (Index i)
    have rest: "field_count ps = 0" "names ps = []" "\<forall>i\<in>set (positions ps). i \<le> PY_SSIZE_T_MAX"
      and i: "\<not> PY_SSIZE_T_MAX < i"
      using Cons.prems Index by auto
    have tmpl: "template_of (p # ps) = CHR ''{'' # decimal i @ CHR ''}'' # template_of ps"
      using Index by simp
    have next_state: "vformat ANS_MANUAL args (template_of ps)
        = (if \<forall>i\<in>set (positions ps). i < length args
           then Inr (fill 0 ps args) else Inl IndexError)"
      using Cons.IH [of ANS_MANUAL] rest by simp
    show ?thesis
      unfolding tmpl vformat_index_field using Cons.prems(3) i Index next_state
      by (auto simp: emit_Inl emit_Inr simp del: vformat.simps)
  next
    case (Name s)
    then show ?thesis using Cons.prems by simp
  qed
qed

lemma vformat_beyond:
  "an_field_number st \<le> length args \<Longrightarrow> \<forall>s\<in>set (names ps). field_name s \<Longrightarrow>
   length args < an_field_number st + field_count ps \<or> (\<exists>i\<in>set (positions ps). length args \<le> i) \<Longrightarrow>
     vformat st args (template_of ps @ rest) = Inl IndexError
     \<or> vformat st args (template_of ps @ rest) = Inl ValueError
     \<or> (\<exists>s\<in>set (names ps). vformat st args (template_of ps @ rest) = Inl (KeyError s))"
proof (induction ps arbitrary: st)
  case Nil
  then show ?case by simp
next
  case (Cons p ps)
  show ?case
  proof (cases p)
    case (Literal s)
    have "vformat st args (template_of ps @ rest) = Inl IndexError
     \<or> vformat st args (template_of ps @ rest) = Inl ValueError
     \<or> (\<exists>s\<in>set (names ps). vformat st args (template_of ps @ rest) = Inl (KeyError s))"
      using Cons.prems Literal by (intro Cons.IH) simp_all
    then show ?thesis
      using Literal by (auto simp: vformat_escape emit_Inl simp del: vformat.simps)
  next
    case Field
    have tmpl: "template_of (p # ps) @ rest = CHR ''{'' # CHR ''}'' # (template_of ps @ rest)"
      using Field by simp
    have names: "\<forall>s\<in>set (names ps). field_name s" "names (p # ps) = names ps"
      using Cons.prems Field by simp_all
    show ?thesis
    proof (cases st)
      case ANS_INIT
      show ?thesis
      proof (cases "0 < length args")
        case True
        have "vformat (ANS_AUTO 1) args (template_of ps @ rest) = Inl IndexError
          \<or> vformat (ANS_AUTO 1) args (template_of ps @ rest) = Inl ValueError
          \<or> (\<exists>s\<in>set (names ps). vformat (ANS_AUTO 1) args (template_of ps @ rest) = Inl (KeyError s))"
          using Cons.prems Field ANS_INIT True by (intro Cons.IH) (cases args; auto)+
        then show ?thesis
          unfolding tmpl vformat_auto_field names(2) using ANS_INIT True
          by (auto simp: emit_Inl simp del: vformat.simps)
      next
        case False
        then show ?thesis unfolding tmpl vformat_auto_field using ANS_INIT by simp
      qed
    next
      case (ANS_AUTO n)
      show ?thesis
      proof (cases "n < length args")
        case True
        have "vformat (ANS_AUTO (Suc n)) args (template_of ps @ rest) = Inl IndexError
          \<or> vformat (ANS_AUTO (Suc n)) args (template_of ps @ rest) = Inl ValueError
          \<or> (\<exists>s\<in>set (names ps).
                vformat (ANS_AUTO (Suc n)) args (template_of ps @ rest) = Inl (KeyError s))"
          using Cons.prems Field ANS_AUTO True by (intro Cons.IH) auto
        then show ?thesis
          unfolding tmpl vformat_auto_field names(2) using ANS_AUTO True
          by (auto simp: emit_Inl simp del: vformat.simps)
      next
        case False
        then show ?thesis unfolding tmpl vformat_auto_field using ANS_AUTO by simp
      qed
    next
      case ANS_MANUAL
      then show ?thesis unfolding tmpl vformat_auto_field by simp
    qed
  next
    case (Index i)
    have tmpl: "template_of (p # ps) @ rest
        = CHR ''{'' # decimal i @ CHR ''}'' # (template_of ps @ rest)"
      using Index by simp
    have names: "names (p # ps) = names ps" using Index by simp
    show ?thesis
    proof (cases "PY_SSIZE_T_MAX < i \<or> (\<exists>n. st = ANS_AUTO n) \<or> \<not> i < length args")
      case True
      then show ?thesis
        unfolding tmpl vformat_index_field
        by (auto simp del: vformat.simps split: an_state.splits)
    next
      case False
      then have st: "st = ANS_INIT \<or> st = ANS_MANUAL" by (cases st) auto
      have "vformat ANS_MANUAL args (template_of ps @ rest) = Inl IndexError
          \<or> vformat ANS_MANUAL args (template_of ps @ rest) = Inl ValueError
          \<or> (\<exists>s\<in>set (names ps). vformat ANS_MANUAL args (template_of ps @ rest) = Inl (KeyError s))"
        using Cons.prems Index False st by (intro Cons.IH) auto
      then show ?thesis
        unfolding tmpl vformat_index_field names using False st
        by (auto simp: emit_Inl simp del: vformat.simps)
    qed
  next
    case (Name s)
    have tmpl: "template_of (p # ps) @ rest = CHR ''{'' # s @ CHR ''}'' # (template_of ps @ rest)"
      using Name by simp
    have "field_name s" using Cons.prems Name by simp
    then show ?thesis
      unfolding tmpl using Name by (simp add: vformat_name_field del: vformat.simps)
  qed
qed

lemma py_format_exact:
  assumes "names ps = []"
    and "positions ps = [] \<or> field_count ps = 0 \<and> (\<forall>i\<in>set (positions ps). i \<le> PY_SSIZE_T_MAX)"
  shows "py_format (template_of ps) args
     = (if references_beyond ps (length args) then Inl IndexError else Inr (fill 0 ps args))"
proof (cases "positions ps = []")
  case True
  then show ?thesis
    using vformat_automatic [of ps ANS_INIT args] assms(1)
    by (auto simp: py_format_def references_beyond_def)
next
  case False
  then show ?thesis
    using vformat_manual [of ps ANS_INIT args] assms
    by (auto simp: py_format_def references_beyond_def not_less)
qed

lemma py_format_beyond:
  assumes "\<forall>s\<in>set (names ps). field_name s" and "references_beyond ps (length args)"
  shows "py_format (template_of ps @ rest) args = Inl IndexError
     \<or> py_format (template_of ps @ rest) args = Inl ValueError
     \<or> (\<exists>s\<in>set (names ps). py_format (template_of ps @ rest) args = Inl (KeyError s))"
  using vformat_beyond [of ANS_INIT args ps rest] assms
  by (simp add: py_format_def references_beyond_def)

lemma vformat_no_configuration_error:
  "vformat st args s \<noteq> Inl ConfigurationError"
proof (induction st args s rule: vformat.induct)
  case (1 st args)
  then show ?case by simp
next
  case (2 st args c cs)
  have emit_ok: "emit t r \<noteq> Inl ConfigurationError" if "r \<noteq> Inl ConfigurationError" for t r
    using that by (cases r) (simp_all add: emit_def)
  show ?case
    using 2 by (auto simp: emit_ok split: list.splits option.splits an_state.splits)
qed


lemma first_values_length:
  "first_values s keys = Inr vals \<Longrightarrow> length vals = length keys"
  by (induction keys arbitrary: vals)
    (auto split: option.splits sum.splits list.splits)

lemma first_values_error:
  "first_values (Some sel) keys = Inl e \<Longrightarrow>
     e = IndexError \<or> (\<exists>k\<in>set keys. map_of sel k = None \<and> e = KeyError k)"
  by (induction keys)
    (auto simp: dict_getitem_def split: option.splits sum.splits list.splits)

lemma first_values_absent:
  "k \<in> set keys \<Longrightarrow> map_of sel k = None \<Longrightarrow> \<exists>e. first_values (Some sel) keys = Inl e"
  by (induction keys)
    (auto simp: dict_getitem_def split: option.splits sum.splits list.splits)

lemma first_values_first_absent:
  "\<forall>k'\<in>set pre. \<exists>v vs. map_of sel k' = Some (v # vs) \<Longrightarrow> map_of sel k = None \<Longrightarrow>
     first_values (Some sel) (pre @ k # post) = Inl (KeyError k)"
  by (induction pre) (auto simp: dict_getitem_def)

lemma first_values_no_configuration_error:
  "first_values s keys \<noteq> Inl ConfigurationError"
  by (induction keys)
    (auto simp: dict_getitem_def split: option.splits sum.splits list.splits)

lemma prepare_target_name_no_configuration_error:
  "prepare_target_name cfg \<noteq> Inl ConfigurationError"
proof -
  have "py_iter pk \<noteq> Inl ConfigurationError" for pk by (cases pk) simp_all
  then show ?thesis
    using first_values_no_configuration_error vformat_no_configuration_error
    by (auto simp: prepare_target_name_def dict_getitem_def py_format_def
        split: option.splits sum.splits pyval.splits)
qed

lemma prepare_target_name_keys:
  assumes "map_of (parameters cfg) ''partition_keys'' = Some pk" and "py_iter pk = Inr keys"
    and "selection cfg = Some sel" and "first_values (Some sel) keys = Inl e"
  shows "prepare_target_name cfg = Inl e"
  using assms by (simp add: prepare_target_name_def dict_getitem_def)

lemma prepare_target_name_formats:
  assumes "map_of (parameters cfg) ''partition_keys'' = Some pk" and "py_iter pk = Inr keys"
    and "selection cfg = Some sel" and "first_values (Some sel) keys = Inr vals"
    and "map_of (parameters cfg) ''target_template'' = Some (Str template)"
  shows "prepare_target_name cfg = py_format template vals"
  using assms by (simp add: prepare_target_name_def dict_getitem_def)

text \<open>
  C7 (amended). Let \<open>keys\<close> be the partition keys and \<open>sel\<close> the selection. When a
  partition key is absent from the selection, the target namer fails: with the
  \<^verbatim>\<open>KeyError\<close> of an absent key, or with an \<^verbatim>\<open>IndexError\<close> when a key listed before it
  has an empty value sequence; it is the \<^verbatim>\<open>KeyError\<close> of the first absent key when
  all keys before it have a value. When every key has a value, the template is
  formatted with one value for each key. A template of literal text and \<^verbatim>\<open>{}\<close> fields
  only, or of literal text and \<^verbatim>\<open>{n}\<close> fields only (\<open>n\<close> at most \<^verbatim>\<open>PY_SSIZE_T_MAX\<close>),
  fails with an \<^verbatim>\<open>IndexError\<close> exactly when it references more positions than there
  are keys, and otherwise gives the template filled with the first values. A template
  that begins with literal text, \<^verbatim>\<open>{}\<close>, \<^verbatim>\<open>{n}\<close> and \<^verbatim>\<open>{name}\<close> fields which reference
  more positions than there are keys fails, whatever follows them, with the first
  error that the formatting meets: an \<^verbatim>\<open>IndexError\<close>, a \<^verbatim>\<open>ValueError\<close> (automatic and
  manual numbering mixed, or an index above \<^verbatim>\<open>PY_SSIZE_T_MAX\<close>) or the \<^verbatim>\<open>KeyError\<close> of
  one of its named fields. The target namer never fails with a
  \<^verbatim>\<open>ConfigurationError\<close>.
\<close>

theorem prepare_target_name_failures:
  "(map_of (parameters cfg) ''partition_keys'' = Some pk \<and> py_iter pk = Inr keys
      \<and> selection cfg = Some sel \<longrightarrow>
      (\<forall>k\<in>set keys. map_of sel k = None \<longrightarrow>
         (\<exists>e. prepare_target_name cfg = Inl e
            \<and> (e = IndexError \<or> (\<exists>k'\<in>set keys. map_of sel k' = None \<and> e = KeyError k'))))
      \<and> (\<forall>pre k post. keys = pre @ k # post
            \<and> (\<forall>k'\<in>set pre. \<exists>v vs. map_of sel k' = Some (v # vs)) \<and> map_of sel k = None \<longrightarrow>
          prepare_target_name cfg = Inl (KeyError k))
      \<and> (\<forall>vals ps rest. first_values (Some sel) keys = Inr vals
            \<and> map_of (parameters cfg) ''target_template'' = Some (Str (template_of ps @ rest)) \<longrightarrow>
          (rest = [] \<and> names ps = []
             \<and> (positions ps = []
                  \<or> field_count ps = 0 \<and> (\<forall>i\<in>set (positions ps). i \<le> PY_SSIZE_T_MAX)) \<longrightarrow>
             prepare_target_name cfg
               = (if references_beyond ps (length keys) then Inl IndexError
                  else Inr (fill 0 ps vals)))
          \<and> ((\<forall>s\<in>set (names ps). field_name s) \<and> references_beyond ps (length keys) \<longrightarrow>
               prepare_target_name cfg = Inl IndexError
               \<or> prepare_target_name cfg = Inl ValueError
               \<or> (\<exists>s\<in>set (names ps). prepare_target_name cfg = Inl (KeyError s)))))
   \<and> prepare_target_name cfg \<noteq> Inl ConfigurationError"
proof (intro conjI impI allI ballI)
  show "prepare_target_name cfg \<noteq> Inl ConfigurationError"
    by (rule prepare_target_name_no_configuration_error)
next
  fix k
  assume a: "map_of (parameters cfg) ''partition_keys'' = Some pk \<and> py_iter pk = Inr keys
      \<and> selection cfg = Some sel"
    and k: "k \<in> set keys" "map_of sel k = None"
  from first_values_absent [OF k] obtain e where e: "first_values (Some sel) keys = Inl e" ..
  then have "prepare_target_name cfg = Inl e"
    using a by (intro prepare_target_name_keys) auto
  with first_values_error [OF e]
  show "\<exists>e. prepare_target_name cfg = Inl e
      \<and> (e = IndexError \<or> (\<exists>k'\<in>set keys. map_of sel k' = None \<and> e = KeyError k'))"
    by blast
next
  fix pre k post
  assume a: "map_of (parameters cfg) ''partition_keys'' = Some pk \<and> py_iter pk = Inr keys
      \<and> selection cfg = Some sel"
    and k: "keys = pre @ k # post
      \<and> (\<forall>k'\<in>set pre. \<exists>v vs. map_of sel k' = Some (v # vs)) \<and> map_of sel k = None"
  then have "first_values (Some sel) keys = Inl (KeyError k)"
    by (simp add: first_values_first_absent)
  then show "prepare_target_name cfg = Inl (KeyError k)"
    using a by (intro prepare_target_name_keys) auto
next
  fix vals ps rest
  assume a: "map_of (parameters cfg) ''partition_keys'' = Some pk \<and> py_iter pk = Inr keys
      \<and> selection cfg = Some sel"
    and t: "first_values (Some sel) keys = Inr vals
      \<and> map_of (parameters cfg) ''target_template'' = Some (Str (template_of ps @ rest))"
    and exact: "rest = [] \<and> names ps = []
      \<and> (positions ps = []
           \<or> field_count ps = 0 \<and> (\<forall>i\<in>set (positions ps). i \<le> PY_SSIZE_T_MAX))"
  have len: "length vals = length keys" using t first_values_length by blast
  have "prepare_target_name cfg = py_format (template_of ps) vals"
    using a t exact by (simp add: prepare_target_name_formats)
  then show "prepare_target_name cfg
      = (if references_beyond ps (length keys) then Inl IndexError else Inr (fill 0 ps vals))"
    using exact len by (simp add: py_format_exact)
next
  fix vals ps rest
  assume a: "map_of (parameters cfg) ''partition_keys'' = Some pk \<and> py_iter pk = Inr keys
      \<and> selection cfg = Some sel"
    and t: "first_values (Some sel) keys = Inr vals
      \<and> map_of (parameters cfg) ''target_template'' = Some (Str (template_of ps @ rest))"
    and beyond: "(\<forall>s\<in>set (names ps). field_name s) \<and> references_beyond ps (length keys)"
  have len: "length vals = length keys" using t first_values_length by blast
  have "prepare_target_name cfg = py_format (template_of ps @ rest) vals"
    using a t by (simp add: prepare_target_name_formats)
  then show "prepare_target_name cfg = Inl IndexError
      \<or> prepare_target_name cfg = Inl ValueError
      \<or> (\<exists>s\<in>set (names ps). prepare_target_name cfg = Inl (KeyError s))"
    using py_format_beyond [of ps vals rest] beyond len by simp
qed

lemma decimal_digit: "n < 10 \<Longrightarrow> decimal n = [digit_char n]"
  by (subst decimal.simps) simp

lemmas template_defs = three_field_config_def manual_config_def mixed_config_def
  named_config_def with_parameter_def scenario_config_def dict_getitem_def escape_def
  decimal_digit digit_char_def

theorem prepare_target_name_failures_witness:
  "prepare_target_name no_month_config = Inl (KeyError ''month'')
   \<and> prepare_target_name three_field_config = Inl IndexError
   \<and> prepare_target_name manual_config = Inl IndexError
   \<and> prepare_target_name scenario_config = Inr ''data-2020-01.nc''
   \<and> (prepare_target_name mixed_config = Inl IndexError
        \<or> prepare_target_name mixed_config = Inl ValueError)
   \<and> (prepare_target_name named_config = Inl IndexError
        \<or> prepare_target_name named_config = Inl ValueError
        \<or> prepare_target_name named_config = Inl (KeyError ''a''))"
proof -
  let ?pk = "Lst [''year'', ''month'']"
  let ?keys = "[''year'', ''month'']"
  let ?sel = "[(''year'', [''2020'']), (''month'', [''01'', ''02''])]"
  let ?vals = "[''2020'', ''01'']"
  have "map_of (parameters no_month_config) ''partition_keys'' = Some ?pk
      \<and> py_iter ?pk = Inr ?keys \<and> selection no_month_config = Some [(''year'', [''2020''])]"
    by (simp add: no_month_config_def scenario_config_def)
  moreover have "?keys = [''year''] @ ''month'' # []
      \<and> (\<forall>k'\<in>set [''year'']. \<exists>v vs. map_of [(''year'', [''2020''])] k' = Some (v # vs))
      \<and> map_of [(''year'', [''2020''])] ''month'' = None"
    by simp
  ultimately have absent: "prepare_target_name no_month_config = Inl (KeyError ''month'')"
    using prepare_target_name_failures
      [of no_month_config ?pk ?keys "[(''year'', [''2020''])]"]
    by blast
  have vals: "first_values (Some ?sel) ?keys = Inr ?vals"
    by (simp add: dict_getitem_def)
  let ?three = "[Literal ''data-'', Field, Literal ''-'', Field, Literal ''-'', Field,
      Literal ''.nc'']"
  have "map_of (parameters three_field_config) ''partition_keys'' = Some ?pk
      \<and> py_iter ?pk = Inr ?keys \<and> selection three_field_config = Some ?sel"
    by (simp add: template_defs)
  moreover have "map_of (parameters three_field_config) ''target_template''
      = Some (Str (template_of ?three @ []))"
    by (simp add: template_defs)
  moreover have "[] = ([] :: string) \<and> names ?three = []
      \<and> (positions ?three = []
           \<or> field_count ?three = 0 \<and> (\<forall>i\<in>set (positions ?three). i \<le> PY_SSIZE_T_MAX))"
    by simp
  ultimately have "prepare_target_name three_field_config
      = (if references_beyond ?three (length ?keys) then Inl IndexError
         else Inr (fill 0 ?three ?vals))"
    using prepare_target_name_failures [of three_field_config ?pk ?keys ?sel] vals
    by blast
  then have automatic: "prepare_target_name three_field_config = Inl IndexError"
    by (simp add: references_beyond_def)
  let ?manual = "[Index 0, Literal ''-'', Index 1, Literal ''-'', Index 2]"
  have "map_of (parameters manual_config) ''partition_keys'' = Some ?pk
      \<and> py_iter ?pk = Inr ?keys \<and> selection manual_config = Some ?sel"
    by (simp add: template_defs)
  moreover have "map_of (parameters manual_config) ''target_template''
      = Some (Str (template_of ?manual @ []))"
    by (simp add: template_defs)
  moreover have "[] = ([] :: string) \<and> names ?manual = []
      \<and> (positions ?manual = []
           \<or> field_count ?manual = 0 \<and> (\<forall>i\<in>set (positions ?manual). i \<le> PY_SSIZE_T_MAX))"
    by (simp add: PY_SSIZE_T_MAX_def)
  ultimately have "prepare_target_name manual_config
      = (if references_beyond ?manual (length ?keys) then Inl IndexError
         else Inr (fill 0 ?manual ?vals))"
    using prepare_target_name_failures [of manual_config ?pk ?keys ?sel] vals
    by blast
  then have manual: "prepare_target_name manual_config = Inl IndexError"
    by (simp add: references_beyond_def)
  let ?two = "[Literal ''data-'', Field, Literal ''-'', Field, Literal ''.nc'']"
  have "map_of (parameters scenario_config) ''partition_keys'' = Some ?pk
      \<and> py_iter ?pk = Inr ?keys \<and> selection scenario_config = Some ?sel"
    by (simp add: template_defs)
  moreover have "map_of (parameters scenario_config) ''target_template''
      = Some (Str (template_of ?two @ []))"
    by (simp add: template_defs)
  moreover have "[] = ([] :: string) \<and> names ?two = []
      \<and> (positions ?two = []
           \<or> field_count ?two = 0 \<and> (\<forall>i\<in>set (positions ?two). i \<le> PY_SSIZE_T_MAX))"
    by simp
  ultimately have "prepare_target_name scenario_config
      = (if references_beyond ?two (length ?keys) then Inl IndexError
         else Inr (fill 0 ?two ?vals))"
    using prepare_target_name_failures [of scenario_config ?pk ?keys ?sel] vals
    by blast
  then have named: "prepare_target_name scenario_config = Inr ''data-2020-01.nc''"
    by (simp add: references_beyond_def)
  let ?mixed = "[Field, Literal ''-'', Index 5]"
  have "map_of (parameters mixed_config) ''partition_keys'' = Some ?pk
      \<and> py_iter ?pk = Inr ?keys \<and> selection mixed_config = Some ?sel"
    by (simp add: template_defs)
  moreover have "map_of (parameters mixed_config) ''target_template''
      = Some (Str (template_of ?mixed @ []))"
    by (simp add: template_defs)
  moreover have "(\<forall>s\<in>set (names ?mixed). field_name s)
      \<and> references_beyond ?mixed (length ?keys)"
    by (simp add: references_beyond_def)
  ultimately have "prepare_target_name mixed_config = Inl IndexError
      \<or> prepare_target_name mixed_config = Inl ValueError
      \<or> (\<exists>s\<in>set (names ?mixed). prepare_target_name mixed_config = Inl (KeyError s))"
    using prepare_target_name_failures [of mixed_config ?pk ?keys ?sel] vals
    by blast
  then have mixed: "prepare_target_name mixed_config = Inl IndexError
      \<or> prepare_target_name mixed_config = Inl ValueError"
    by simp
  let ?named = "[Name ''a'', Literal ''-'', Field, Literal ''-'', Field, Literal ''-'', Field]"
  have "map_of (parameters named_config) ''partition_keys'' = Some ?pk
      \<and> py_iter ?pk = Inr ?keys \<and> selection named_config = Some ?sel"
    by (simp add: template_defs)
  moreover have "map_of (parameters named_config) ''target_template''
      = Some (Str (template_of ?named @ []))"
    by (simp add: template_defs)
  moreover have "(\<forall>s\<in>set (names ?named). field_name s)
      \<and> references_beyond ?named (length ?keys)"
    by (simp add: references_beyond_def field_name_def outside_fragment_def digit_val_def)
  ultimately have "prepare_target_name named_config = Inl IndexError
      \<or> prepare_target_name named_config = Inl ValueError
      \<or> (\<exists>s\<in>set (names ?named). prepare_target_name named_config = Inl (KeyError s))"
    using prepare_target_name_failures [of named_config ?pk ?keys ?sel] vals
    by blast
  then have "prepare_target_name named_config = Inl IndexError
      \<or> prepare_target_name named_config = Inl ValueError
      \<or> prepare_target_name named_config = Inl (KeyError ''a'')"
    by simp
  with absent automatic manual named mixed show ?thesis by simp
qed

text \<open>
  C7 as stated fails: the exceptions are the \<^verbatim>\<open>KeyError\<close> of the dictionary lookup and
  the exceptions of \<^verbatim>\<open>str.format\<close>, not a \<^verbatim>\<open>ConfigurationError\<close>: an \<^verbatim>\<open>IndexError\<close>
  for \<^verbatim>\<open>data-{}-{}-{}.nc\<close> and for \<^verbatim>\<open>{0}-{1}-{2}\<close>, a \<^verbatim>\<open>ValueError\<close> for \<^verbatim>\<open>{}-{5}\<close>
  and a \<^verbatim>\<open>KeyError\<close> for \<^verbatim>\<open>{a}-{}-{}-{}\<close>, each with two partition keys.
\<close>

theorem configuration_error_counterexample:
  "map_of (parameters no_month_config) ''partition_keys'' = Some (Lst [''year'', ''month''])
   \<and> selection no_month_config = Some [(''year'', [''2020''])]
   \<and> prepare_target_name no_month_config = Inl (KeyError ''month'')
   \<and> prepare_target_name no_month_config \<noteq> Inl ConfigurationError
   \<and> map_of (parameters three_field_config) ''target_template'' = Some (Str ''data-{}-{}-{}.nc'')
   \<and> prepare_target_name three_field_config = Inl IndexError
   \<and> prepare_target_name three_field_config \<noteq> Inl ConfigurationError
   \<and> map_of (parameters manual_config) ''target_template'' = Some (Str ''{0}-{1}-{2}'')
   \<and> prepare_target_name manual_config = Inl IndexError
   \<and> map_of (parameters mixed_config) ''target_template'' = Some (Str ''{}-{5}'')
   \<and> prepare_target_name mixed_config = Inl ValueError
   \<and> map_of (parameters named_config) ''target_template'' = Some (Str ''{a}-{}-{}-{}'')
   \<and> prepare_target_name named_config = Inl (KeyError ''a'')"
  by (simp add: no_month_config_def three_field_config_def manual_config_def mixed_config_def
      named_config_def eval_defs)

subsection \<open>The user of the manifest entry\<close>

lemma map_of_dict_update_None:
  "map_of (dict_update d e) k = None \<longleftrightarrow> map_of d k = None \<and> map_of e k = None"
  by (induction d e rule: dict_update.induct) (auto simp: map_of_dict_setitem)

lemma params_loop_cases:
  "params_loop extra i = [] \<or> params_loop extra i \<in> set extra"
  by (simp add: params_loop_def)

lemma Yield_in_yields: "Yield out \<in> set evs \<Longrightarrow> out \<in> set (yields evs)"
  by (induction evs rule: yields.induct) auto

lemma fetch_data_transact:
  "prepare_target_name cfg = Inr target \<Longrightarrow> selection cfg = Some sel \<Longrightarrow>
     fetch_data cfg retrieve m w
       = transact m (sel, target, dict_get (parameters cfg) ''user_id'' (Str ''unknown''))
           (fetch_body retrieve (dict_get (parameters cfg) ''dataset'' (Str [])) sel target) w"
  by (simp add: fetch_data_def)

text \<open>
  C9 (amended). For every Partition that the expander yields, the \<^verbatim>\<open>manifest.schedule\<close>
  call of the expander and the \<^verbatim>\<open>manifest.transact\<close> call of the fetch executor have the
  same key: the narrowed selection, the target name and the \<^verbatim>\<open>user_id\<close> of the
  Partition's merged parameters, \<^verbatim>\<open>unknown\<close> when these have none. They have none, and
  the user is \<^verbatim>\<open>unknown\<close> in both calls, when \<^verbatim>\<open>user_id\<close> is absent from the parameters
  of the configuration and from each of its parameter groups.
\<close>

theorem same_manifest_key:
  "\<forall>i sel location user out.
     Suc i < length (fst (prepare_partition cfg st))
     \<and> fst (prepare_partition cfg st) ! i = Schedule sel location user
     \<and> fst (prepare_partition cfg st) ! Suc i = Yield out \<longrightarrow>
       user = dict_get (parameters out) ''user_id'' (Str ''unknown'')
       \<and> fetch_data out retrieve m w
           = transact m (sel, location, user)
               (fetch_body retrieve (dict_get (parameters out) ''dataset'' (Str [])) sel location) w
       \<and> (map_of (parameters cfg) ''user_id'' = None
            \<and> (\<forall>g\<in>set (extra_params (parameters cfg)). map_of g ''user_id'' = None) \<longrightarrow>
          user = Str ''unknown'')"
proof (intro allI impI)
  fix i sel location user out
  let ?E = "fst (prepare_partition cfg st)"
  assume a: "Suc i < length ?E \<and> ?E ! i = Schedule sel location user \<and> ?E ! Suc i = Yield out"
  then have "i < length ?E" by simp
  from registered_schedule [OF registered_prepare_partition this, of sel location user] a
  have out: "selection out = Some sel" "prepare_target_name out = Inr location"
      "user = dict_get (parameters out) ''user_id'' (Str ''unknown'')"
    by auto
  have fetch: "fetch_data out retrieve m w
      = transact m (sel, location, user)
          (fetch_body retrieve (dict_get (parameters out) ''dataset'' (Str [])) sel location) w"
    using out by (simp add: fetch_data_transact)
  have "user = Str ''unknown''"
    if absent: "map_of (parameters cfg) ''user_id'' = None
      \<and> (\<forall>g\<in>set (extra_params (parameters cfg)). map_of g ''user_id'' = None)"
  proof -
    have "Yield out \<in> set ?E" using a by (metis nth_mem)
    then obtain j where j: "j < fan_out_size cfg" "out = partition_at cfg j"
      using Yield_in_yields yields_are_candidates by blast
    from j(1) obtain ks sl vss where "partition_lists cfg = Inr (ks, sl, vss)"
      by (cases rule: partition_lists_cases [of cfg st]) auto
    then have "parameters out
        = dict_update (parameters cfg) (params_loop (extra_params (parameters cfg)) j)"
      using j by (simp add: parameters_partition_at)
    moreover have "map_of (params_loop (extra_params (parameters cfg)) j) ''user_id'' = None"
      using params_loop_cases [of "extra_params (parameters cfg)" j] absent by auto
    ultimately have "map_of (parameters out) ''user_id'' = None"
      using absent by (simp add: map_of_dict_update_None)
    then show ?thesis using out by (simp add: dict_get_def)
  qed
  with out fetch show "user = dict_get (parameters out) ''user_id'' (Str ''unknown'')
       \<and> fetch_data out retrieve m w
           = transact m (sel, location, user)
               (fetch_body retrieve (dict_get (parameters out) ''dataset'' (Str [])) sel location) w
       \<and> (map_of (parameters cfg) ''user_id'' = None
            \<and> (\<forall>g\<in>set (extra_params (parameters cfg)). map_of g ''user_id'' = None) \<longrightarrow>
          user = Str ''unknown'')"
    by blast
qed


theorem same_manifest_key_witness:
  "fst (prepare_partition scenario_config (holding [])) ! 0
     = Schedule [(''year'', [''2020'']), (''month'', [''01''])] ''data-2020-01.nc'' (Str ''unknown'')
   \<and> fetch_data
        \<lparr>selection = Some [(''year'', [''2020'']), (''month'', [''01''])],
         parameters = [(''partition_keys'', Lst [''year'', ''month'']),
                       (''target_template'', Str ''data-{}-{}.nc'')]\<rparr>
        (\<lambda>dataset sel. Inr ''bytes'') (\<lambda>k. None) (holding [])
     = transact (\<lambda>k. None)
        ([(''year'', [''2020'']), (''month'', [''01''])], ''data-2020-01.nc'', Str ''unknown'')
        (fetch_body (\<lambda>dataset sel. Inr ''bytes'') (Str [])
           [(''year'', [''2020'']), (''month'', [''01''])] ''data-2020-01.nc'')
        (holding [])"
proof -
  let ?E = "fst (prepare_partition scenario_config (holding []))"
  let ?sel = "[(''year'', [''2020'']), (''month'', [''01''])]"
  let ?out = "\<lparr>selection = Some ?sel,
         parameters = [(''partition_keys'', Lst [''year'', ''month'']),
                       (''target_template'', Str ''data-{}-{}.nc'')]\<rparr>"
  have e: "Suc 0 < length ?E \<and> ?E ! 0 = Schedule ?sel ''data-2020-01.nc'' (Str ''unknown'')
      \<and> ?E ! Suc 0 = Yield ?out"
    by (simp add: scenario_events)
  moreover have "map_of (parameters scenario_config) ''user_id'' = None
      \<and> (\<forall>g\<in>set (extra_params (parameters scenario_config)). map_of g ''user_id'' = None)"
    by (simp add: scenario_config_def)
  ultimately have "fetch_data ?out (\<lambda>dataset sel. Inr ''bytes'') (\<lambda>k. None) (holding [])
      = transact (\<lambda>k. None) (?sel, ''data-2020-01.nc'', Str ''unknown'')
          (fetch_body (\<lambda>dataset sel. Inr ''bytes'')
             (dict_get (parameters ?out) ''dataset'' (Str [])) ?sel ''data-2020-01.nc'')
          (holding [])"
    using same_manifest_key [of scenario_config "holding []" "\<lambda>dataset sel. Inr ''bytes''"
        "\<lambda>k. None" "holding []"]
    by blast
  then show ?thesis using e by (simp add: dict_get_def)
qed

text \<open>
  C9 as stated fails: \<^verbatim>\<open>user_id\<close> is absent from the parameters of the configuration,
  but a parameter group sets it, and the \<^verbatim>\<open>manifest.schedule\<close> call uses the user of
  the group.
\<close>

theorem group_user_counterexample:
  "map_of (parameters user_group_config) ''user_id'' = None
   \<and> extra_params (parameters user_group_config) = [[(''user_id'', Str ''bob'')]]
   \<and> fst (prepare_partition user_group_config (holding [])) ! 0
       = Schedule [(''year'', [''2020'']), (''month'', [''01''])] ''data-2020-01.nc'' (Str ''bob'')
   \<and> Str ''bob'' \<noteq> Str ''unknown''"
  by (simp add: user_group_config_def run_defs eval_defs)

subsection \<open>The manifest transaction\<close>

lemma concat_read_chunks: "concat (read_chunks bytes) = bytes"
proof (induction bytes rule: read_chunks.induct)
  case (1 bytes)
  show ?case
  proof (cases "take 8192 bytes = []")
    case True
    then have "bytes = []" by (cases bytes) simp_all
    then show ?thesis by (subst read_chunks.simps) simp
  next
    case False
    have "concat (read_chunks bytes) = take 8192 bytes @ concat (read_chunks (drop 8192 bytes))"
      using False by (subst read_chunks.simps) simp
    then show ?thesis using 1 False by simp
  qed
qed

lemma upload_bytes: "upload st target bytes = st(target \<mapsto> bytes)"
  by (simp add: upload_def concat_read_chunks)

text \<open>
  C2. A transaction on a key whose entry is not \<^verbatim>\<open>in-progress\<close> runs its body. If the
  body completes normally, the entry is \<^verbatim>\<open>success\<close> afterwards and the result of the
  body is returned; if the body raises, the entry is \<^verbatim>\<open>failure\<close> with the error of the
  body recorded, and the same error is raised to the caller. For \<^verbatim>\<open>fetch_data\<close>, whose
  transaction body retrieves and uploads: when the client returns the bytes, the entry
  is \<^verbatim>\<open>success\<close> and the store holds the bytes at the target; when the client raises,
  the entry is \<^verbatim>\<open>failure\<close> with that error, the store is unchanged, and \<^verbatim>\<open>fetch_data\<close>
  raises that error.
\<close>

theorem transact_outcome:
  "m k \<noteq> Some InProgress \<longrightarrow>
     (\<forall>w' v. body w = (w', Inr v) \<longrightarrow> transact m k body w = (m(k \<mapsto> Success), w', Inr v))
     \<and> (\<forall>w' e. body w = (w', Inl e) \<longrightarrow> transact m k body w = (m(k \<mapsto> Failure e), w', Inl e))
     \<and> (\<forall>cfg retrieve sel target bytes.
          prepare_target_name cfg = Inr target \<and> selection cfg = Some sel
          \<and> k = (sel, target, dict_get (parameters cfg) ''user_id'' (Str ''unknown''))
          \<and> retrieve (dict_get (parameters cfg) ''dataset'' (Str [])) sel = Inr bytes \<longrightarrow>
          fetch_data cfg retrieve m st = (m(k \<mapsto> Success), st(target \<mapsto> bytes), Inr ()))
     \<and> (\<forall>cfg retrieve sel target e.
          prepare_target_name cfg = Inr target \<and> selection cfg = Some sel
          \<and> k = (sel, target, dict_get (parameters cfg) ''user_id'' (Str ''unknown''))
          \<and> retrieve (dict_get (parameters cfg) ''dataset'' (Str [])) sel = Inl e \<longrightarrow>
          fetch_data cfg retrieve m st = (m(k \<mapsto> Failure e), st, Inl e))"
  by (auto simp: transact_def fetch_data_def fetch_body_def upload_bytes Let_def)


theorem transact_outcome_witness:
  "fetch_data first_partition (\<lambda>dataset sel. Inr ''bytes'') (\<lambda>k. None) (holding [])
     = ((\<lambda>k. None)(first_key \<mapsto> Success), (holding [])(''data-2020-01.nc'' \<mapsto> ''bytes''), Inr ())
   \<and> fetch_data first_partition (\<lambda>dataset sel. Inl (FetchError ''quota'')) (\<lambda>k. None) (holding [])
     = ((\<lambda>k. None)(first_key \<mapsto> Failure (FetchError ''quota'')), holding [],
        Inl (FetchError ''quota''))
   \<and> transact ((\<lambda>k. None)(first_key \<mapsto> Scheduled)) first_key
        (\<lambda>w. (w, Inl (StoreError ''disk'') :: pyerr + unit)) (holding [])
     = ((\<lambda>k. None)(first_key \<mapsto> Failure (StoreError ''disk'')), holding [],
        Inl (StoreError ''disk''))"
proof -
  let ?sel = "[(''year'', [''2020'']), (''month'', [''01''])]"
  have free: "(\<lambda>k. None :: status option) first_key \<noteq> Some InProgress" by simp
  have name: "prepare_target_name first_partition = Inr ''data-2020-01.nc''"
    by (simp add: first_partition_def eval_defs)
  have sel: "selection first_partition = Some ?sel"
    by (simp add: first_partition_def)
  have key: "first_key = (?sel, ''data-2020-01.nc'',
      dict_get (parameters first_partition) ''user_id'' (Str ''unknown''))"
    by (simp add: first_partition_def first_key_def dict_get_def)
  have dataset: "dict_get (parameters first_partition) ''dataset'' (Str []) = Str []"
    by (simp add: first_partition_def dict_get_def)
  note outcome = transact_outcome [of "\<lambda>k. None" first_key "\<lambda>w. (w, Inr ())" "holding []"
      "holding []", THEN mp, OF free]
  note fetched = outcome [THEN conjunct2, THEN conjunct2, THEN conjunct1, rule_format,
      where cfg = first_partition and target = "''data-2020-01.nc''" and sel = ?sel
        and retrieve = "\<lambda>dataset sel. Inr ''bytes''" and bytes = "''bytes''"]
  note failed = outcome [THEN conjunct2, THEN conjunct2, THEN conjunct2, rule_format,
      where cfg = first_partition and target = "''data-2020-01.nc''" and sel = ?sel
        and retrieve = "\<lambda>dataset sel. Inl (FetchError ''quota'')" and e = "FetchError ''quota''"]
  have "fetch_data first_partition (\<lambda>dataset sel. Inr ''bytes'') (\<lambda>k. None) (holding [])
      = ((\<lambda>k. None)(first_key \<mapsto> Success), (holding [])(''data-2020-01.nc'' \<mapsto> ''bytes''), Inr ())"
    using name sel key by (intro fetched) simp
  moreover have "fetch_data first_partition (\<lambda>dataset sel. Inl (FetchError ''quota''))
        (\<lambda>k. None) (holding [])
      = ((\<lambda>k. None)(first_key \<mapsto> Failure (FetchError ''quota'')), holding [],
         Inl (FetchError ''quota''))"
    using name sel key by (intro failed) simp
  moreover have "transact ((\<lambda>k. None)(first_key \<mapsto> Scheduled)) first_key
        (\<lambda>w. (w, Inl (StoreError ''disk'') :: pyerr + unit)) (holding [])
      = (((\<lambda>k. None)(first_key \<mapsto> Scheduled))(first_key \<mapsto> Failure (StoreError ''disk'')),
         holding [], Inl (StoreError ''disk''))"
    using transact_outcome [of "(\<lambda>k. None)(first_key \<mapsto> Scheduled)" first_key
        "\<lambda>w. (w, Inl (StoreError ''disk'') :: pyerr + unit)" "holding []" "holding []"]
    by simp
  ultimately show ?thesis by simp
qed

subsection \<open>The dry run\<close>



















subsection \<open>The manifest after the expander\<close>

lemma schedule_idempotent: "schedule (schedule m k) k = schedule m k"
  by (simp add: schedule_def)

text \<open>
  With the manifest of the specification, the entry of a Partition is \<^verbatim>\<open>scheduled\<close> at
  the moment the Partition is yielded: the events before the yield end with the
  \<^verbatim>\<open>manifest.schedule\<close> call for its key.
\<close>

lemma record_events_append:
  "record_events m (evs @ evs') = record_events (record_events m evs) evs'"
  by (induction m evs rule: record_events.induct) simp_all

lemma scheduled_when_yielded:
  assumes "i < length (fst (prepare_partition cfg st))"
    and "fst (prepare_partition cfg st) ! i = Yield out"
  shows "\<exists>sel location. selection out = Some sel \<and> prepare_target_name out = Inr location
    \<and> record_events m (take i (fst (prepare_partition cfg st)))
        (sel, location, dict_get (parameters out) ''user_id'' (Str ''unknown''))
      = Some Scheduled"
proof -
  let ?E = "fst (prepare_partition cfg st)"
  from registered_yield [OF registered_prepare_partition assms]
  obtain sel location where i: "0 < i"
    and s: "?E ! (i - 1)
      = Schedule sel location (dict_get (parameters out) ''user_id'' (Str ''unknown''))"
    and out: "selection out = Some sel" "prepare_target_name out = Inr location"
    by blast
  from i assms(1) have "take i ?E = take (i - 1) ?E @ [?E ! (i - 1)]"
    by (metis Suc_diff_1 Suc_lessD take_Suc_conv_app_nth)
  then have "record_events m (take i ?E)
      (sel, location, dict_get (parameters out) ''user_id'' (Str ''unknown'')) = Some Scheduled"
    using s by (simp add: record_events_append schedule_def)
  with out show ?thesis by blast
qed

end
